theory Spec2Isabelle
  imports Main "HOL-Library.Sublist"
begin

section \<open>JavaScript values used by the session logger\<close>

text \<open>
  Strings are lists of characters standing for the code units of the JavaScript
  string (code units below 256). Numbers that the program formats are integers
  (the results of the \<open>Date\<close> getters), modelled as \<open>int\<close>. An optional
  field of an object (absent, \<open>undefined\<close> or \<open>null\<close>) is an \<open>option\<close>.
\<close>

text \<open>\<open>a ?? b\<close>: the left operand unless it is \<open>null\<close> or \<open>undefined\<close>.\<close>

definition nullish :: "'a option \<Rightarrow> 'a \<Rightarrow> 'a" where
  "nullish a b = (case a of Some v \<Rightarrow> v | None \<Rightarrow> b)"

text \<open>Truthiness of an optional string: present and not the empty string.\<close>

definition truthy :: "string option \<Rightarrow> bool" where
  "truthy a = (case a of Some v \<Rightarrow> v \<noteq> [] | None \<Rightarrow> False)"

definition digit_char :: "nat \<Rightarrow> char" where
  "digit_char n = ''0123456789'' ! n"

text \<open>The decimal digits of a natural number, most significant first.\<close>

fun digits_of :: "nat \<Rightarrow> string" where
  "digits_of n =
     (if n < 10 then [digit_char n]
      else digits_of (n div 10) @ [digit_char (n mod 10)])"

declare digits_of.simps [simp del]

text \<open>\<open>String(n)\<close> for an integer \<open>n\<close>: its decimal digits, after a minus sign when negative.\<close>

definition String_num :: "int \<Rightarrow> string" where
  "String_num n =
     (if n < 0 then CHR ''-'' # digits_of (nat (- n)) else digits_of (nat n))"

text \<open>\<open>s.padStart(targetLength, c)\<close> with a one-character pad string.\<close>

definition padStart :: "nat \<Rightarrow> char \<Rightarrow> string \<Rightarrow> string" where
  "padStart targetLength c s = replicate (targetLength - length s) c @ s"

definition pad2 :: "int \<Rightarrow> string" where
  "pad2 n = padStart 2 (CHR ''0'') (String_num n)"

definition pad3 :: "int \<Rightarrow> string" where
  "pad3 n = padStart 3 (CHR ''0'') (String_num n)"

text \<open>
  A valid \<open>Date\<close> object, seen through the local-time getters the program calls.
  \<open>getMonth\<close> is 0-based, as in JavaScript.
\<close>

record js_date =
  getFullYear :: int
  getMonth :: int
  getDate :: int
  getHours :: int
  getMinutes :: int
  getSeconds :: int
  getMilliseconds :: int

text \<open>The ranges ECMAScript guarantees for the getters of a valid date.\<close>

definition valid_date :: "js_date \<Rightarrow> bool" where
  "valid_date d =
     (- 271821 \<le> getFullYear d \<and> getFullYear d \<le> 275760
      \<and> 0 \<le> getMonth d \<and> getMonth d \<le> 11
      \<and> 1 \<le> getDate d \<and> getDate d \<le> 31
      \<and> 0 \<le> getHours d \<and> getHours d \<le> 23
      \<and> 0 \<le> getMinutes d \<and> getMinutes d \<le> 59
      \<and> 0 \<le> getSeconds d \<and> getSeconds d \<le> 59
      \<and> 0 \<le> getMilliseconds d \<and> getMilliseconds d \<le> 999)"

definition formatDateFolder :: "js_date \<Rightarrow> string" where
  "formatDateFolder d =
     pad2 (getDate d) @ ''-'' @ pad2 (getMonth d + 1) @ ''-'' @ String_num (getFullYear d)"

definition formatTimeDash :: "js_date \<Rightarrow> string" where
  "formatTimeDash d =
     pad2 (getHours d) @ ''-'' @ pad2 (getMinutes d) @ ''-'' @ pad2 (getSeconds d)"

definition formatTimeDashMs :: "js_date \<Rightarrow> string" where
  "formatTimeDashMs d = formatTimeDash d @ ''-'' @ pad3 (getMilliseconds d)"

definition formatTimeColon :: "js_date \<Rightarrow> string" where
  "formatTimeColon d =
     pad2 (getHours d) @ '':'' @ pad2 (getMinutes d) @ '':'' @ pad2 (getSeconds d)"

subsection \<open>\<open>split\<close>, \<open>join\<close> and \<open>trim\<close>\<close>

text \<open>
  \<open>s.split(key)\<close> for a non-empty \<open>key\<close>: the pieces between the occurrences of
  \<open>key\<close>, found left to right without overlap.
\<close>

function split_at_key :: "string \<Rightarrow> string \<Rightarrow> string list" where
  "split_at_key key [] = [[]]"
| "split_at_key key (c # cs) =
     (if key \<noteq> [] \<and> prefix key (c # cs)
      then [] # split_at_key key (drop (length key) (c # cs))
      else (case split_at_key key cs of
              [] \<Rightarrow> [[c]]
            | p # ps \<Rightarrow> (c # p) # ps))"
  by pat_completeness auto
termination
  by (relation "measure (\<lambda>(key, s). length s)") auto

declare split_at_key.simps(2) [simp del]

text \<open>With the empty key, \<open>split\<close> returns the code units one by one.\<close>

definition split_js :: "string \<Rightarrow> string \<Rightarrow> string list" where
  "split_js key s = (if key = [] then map (\<lambda>c. [c]) s else split_at_key key s)"

fun join_js :: "string \<Rightarrow> string list \<Rightarrow> string" where
  "join_js sep [] = []"
| "join_js sep [x] = x"
| "join_js sep (x # y # ys) = x @ sep @ join_js sep (y # ys)"

text \<open>White space and line terminators that \<open>trim\<close> strips, among code units below 256.\<close>

definition js_whitespace :: "char \<Rightarrow> bool" where
  "js_whitespace c = (of_char c \<in> {9, 10, 11, 12, 13, 32, 160 :: nat})"

definition js_trim :: "string \<Rightarrow> string" where
  "js_trim s = rev (dropWhile js_whitespace (rev (dropWhile js_whitespace s)))"

subsection \<open>Paths (\<open>node:path\<close> on a POSIX host)\<close>

text \<open>
  \<open>path.join\<close>, \<open>path.normalize\<close> and \<open>path.basename\<close> belong to the platform,
  not to the repository. They are modelled after Node's POSIX implementation, on
  the segments of the path: \<open>normalizeString\<close> drops empty and \<open>.\<close> segments and
  resolves \<open>..\<close> against the segment before it; above the start of a relative path
  (\<open>allowAboveRoot\<close>) a \<open>..\<close> is kept, above the root it is dropped.
\<close>

definition normalize_step :: "bool \<Rightarrow> string list \<Rightarrow> string \<Rightarrow> string list" where
  "normalize_step allowAboveRoot res seg =
     (if seg = [] \<or> seg = ''.'' then res
      else if seg = ''..'' then
        (if res \<noteq> [] \<and> last res \<noteq> ''..'' then butlast res
         else if allowAboveRoot then res @ [''..'']
         else res)
      else res @ [seg])"

definition normalizeString :: "string \<Rightarrow> bool \<Rightarrow> string" where
  "normalizeString path allowAboveRoot =
     join_js ''/'' (foldl (normalize_step allowAboveRoot) [] (split_js ''/'' path))"

definition path_normalize :: "string \<Rightarrow> string" where
  "path_normalize path =
     (if path = [] then ''.''
      else
        let isAbsolute = (hd path = CHR ''/'');
            trailingSeparator = (last path = CHR ''/'');
            p = normalizeString path (\<not> isAbsolute)
        in if p = [] then (if isAbsolute then ''/'' else if trailingSeparator then ''./'' else ''.'')
           else (if isAbsolute then ''/'' else []) @ p @ (if trailingSeparator then ''/'' else []))"

definition path_join :: "string list \<Rightarrow> string" where
  "path_join args =
     (let joined = join_js ''/'' (filter (\<lambda>arg. arg \<noteq> []) args)
      in if joined = [] then ''.'' else path_normalize joined)"

definition path_basename :: "string \<Rightarrow> string" where
  "path_basename path =
     rev (takeWhile (\<lambda>c. c \<noteq> CHR ''/'') (dropWhile (\<lambda>c. c = CHR ''/'') (rev path)))"

section \<open>The file system\<close>

text \<open>
  The state the program acts on through \<open>node:fs\<close>: the directories that exist and
  the regular files with their contents, both keyed by the path string the program
  passes. The root directory and the working directory always exist; the parent of a
  path with no directory part is written \<open>[]\<close>. An operation the platform rejects
  returns \<open>Inl\<close> with the error code; a rejected promise that the program does not
  catch leaves the function with that error.
\<close>

datatype fs_error = ENOENT | EISDIR | EEXIST | ENOTDIR

record filesystem =
  dirs :: "string set"
  files :: "string \<rightharpoonup> string"

text \<open>The text before the last separator of a path.\<close>

definition parent_path :: "string \<Rightarrow> string" where
  "parent_path p = rev (drop 1 (dropWhile (\<lambda>c. c \<noteq> CHR ''/'') (rev p)))"

definition dir_exists :: "filesystem \<Rightarrow> string \<Rightarrow> bool" where
  "dir_exists fs p = (p = [] \<or> p \<in> dirs fs)"

text \<open>The path itself and the directories above it, outermost first.\<close>

definition dir_chain :: "string \<Rightarrow> string list" where
  "dir_chain p =
     filter (\<lambda>q. q \<noteq> [] \<and> q \<noteq> ''/'' \<and> (q = p \<or> p ! length q = CHR ''/'')) (prefixes p)"

text \<open>\<open>fs.access(p)\<close> succeeds for whatever exists at \<open>p\<close>, a directory included.\<close>

definition fileExists :: "filesystem \<Rightarrow> string \<Rightarrow> bool" where
  "fileExists fs p = (files fs p \<noteq> None \<or> p \<in> dirs fs)"

text \<open>\<open>fs.mkdir(p, { recursive: true })\<close>.\<close>

definition ensureDir :: "filesystem \<Rightarrow> string \<Rightarrow> fs_error + filesystem" where
  "ensureDir fs p =
     (if files fs p \<noteq> None then Inl EEXIST
      else if list_ex (\<lambda>q. files fs q \<noteq> None) (dir_chain p) then Inl ENOTDIR
      else Inr (fs\<lparr>dirs := dirs fs \<union> set (dir_chain p)\<rparr>))"

text \<open>\<open>fs.readFile(p, "utf8")\<close>.\<close>

definition readFile :: "filesystem \<Rightarrow> string \<Rightarrow> fs_error + string" where
  "readFile fs p =
     (case files fs p of
        Some content \<Rightarrow> Inr content
      | None \<Rightarrow> if p \<in> dirs fs then Inl EISDIR else Inl ENOENT)"

text \<open>\<open>fs.writeFile(p, content, "utf8")\<close>: creates or replaces the file; never a directory.\<close>

definition writeFile :: "filesystem \<Rightarrow> string \<Rightarrow> string \<Rightarrow> fs_error + filesystem" where
  "writeFile fs p content =
     (if p \<in> dirs fs then Inl EISDIR
      else if dir_exists fs (parent_path p) then Inr (fs\<lparr>files := (files fs)(p \<mapsto> content)\<rparr>)
      else if files fs (parent_path p) \<noteq> None then Inl ENOTDIR
      else Inl ENOENT)"

section \<open>The program\<close>

subsection \<open>Startup arguments\<close>

text \<open>\<open>xs.findIndex(p)\<close>: the index of the first element that satisfies \<open>p\<close>, or \<open>-1\<close>.\<close>

fun findIndex :: "('a \<Rightarrow> bool) \<Rightarrow> 'a list \<Rightarrow> int" where
  "findIndex p [] = - 1"
| "findIndex p (x # xs) =
     (if p x then 0 else (let i = findIndex p xs in if i < 0 then - 1 else i + 1))"

text \<open>\<open>xs[i]\<close>: \<open>undefined\<close> outside the array.\<close>

definition at_index :: "'a list \<Rightarrow> int \<Rightarrow> 'a option" where
  "at_index xs i = (if 0 \<le> i \<and> i < int (length xs) then Some (xs ! nat i) else None)"

record cli_args =
  cli_workspaceRoot :: "string option"

definition parseCliArgs :: "string list \<Rightarrow> cli_args" where
  "parseCliArgs argv =
     (let args = drop 2 argv;
          idx = findIndex (\<lambda>a. a = ''--workspaceRoot'') args
      in if idx \<ge> 0 \<and> truthy (at_index args (idx + 1))
         then \<lparr>cli_workspaceRoot = at_index args (idx + 1)\<rparr>
         else \<lparr>cli_workspaceRoot = None\<rparr>)"

subsection \<open>Template rendering\<close>

text \<open>
  \<open>replacements\<close> is the list \<open>Object.entries\<close> returns: the entries of the object
  in its enumeration order.
\<close>

fun applyTemplate :: "string \<Rightarrow> (string \<times> string) list \<Rightarrow> string" where
  "applyTemplate out [] = out"
| "applyTemplate out ((key, value) # replacements) =
     applyTemplate (join_js value (split_js key out)) replacements"

definition defaultTemplate :: string where
  "defaultTemplate =
     ''# Copilot chat session {{DATE}} {{TIME_COLON}}'' @ [CHR 10, CHR 10] @
     ''## Conversation'' @ [CHR 10, CHR 10] @
     ''{{TRANSCRIPT}}'' @ [CHR 10]"

definition templatePath_of :: "string \<Rightarrow> string" where
  "templatePath_of logRoot = path_join [logRoot, ''_TEMPLATE.md'']"

definition loadOrCreateTemplate ::
    "filesystem \<Rightarrow> string \<Rightarrow> (fs_error + string) \<times> filesystem" where
  "loadOrCreateTemplate fs logRoot =
     (let templatePath = templatePath_of logRoot
      in if fileExists fs templatePath then (readFile fs templatePath, fs)
         else (case writeFile fs templatePath defaultTemplate of
                 Inl e \<Rightarrow> (Inl e, fs)
               | Inr fs' \<Rightarrow> (Inr defaultTemplate, fs')))"

subsection \<open>The save handler\<close>

text \<open>
  What the handler reads from its host: the working directory, the platform name,
  the clock (\<open>new Date()\<close>) and the date parser (\<open>new Date(s)\<close>, \<open>None\<close> for an
  invalid date, whose \<open>getTime()\<close> is \<open>NaN\<close>).
\<close>

record host =
  process_cwd :: string
  process_platform :: string
  date_now :: js_date
  date_parse :: "string \<Rightarrow> js_date option"

record SaveCopilotSessionArgs =
  transcriptMarkdown :: "string option"
  savedAt :: "string option"
  workspaceRoot :: "string option"

datatype save_result = SavedPath string | Error string

definition invalid_savedAt_message :: string where
  "invalid_savedAt_message =
     ''Invalid 'savedAt' value. Expected an ISO-8601 datetime string.''"

definition no_transcript_message :: string where
  "no_transcript_message =
     ''No transcript provided. This tool expects Copilot to pass the full conversation Markdown as 'transcriptMarkdown' when invoking save-copilot-session.''"

text \<open>\<open>args.savedAt ? new Date(args.savedAt) : new Date()\<close>\<close>

definition savedAt_of :: "host \<Rightarrow> SaveCopilotSessionArgs \<Rightarrow> js_date option" where
  "savedAt_of h args =
     (if truthy (savedAt args) then date_parse h (nullish (savedAt args) [])
      else Some (date_now h))"

definition workspaceRoot_of :: "host \<Rightarrow> SaveCopilotSessionArgs \<Rightarrow> string" where
  "workspaceRoot_of h args = nullish (workspaceRoot args) (process_cwd h)"

definition logRoot_of :: "string \<Rightarrow> string" where
  "logRoot_of root = path_join [root, ''copilot-session_log'']"

definition outDir_of :: "string \<Rightarrow> js_date \<Rightarrow> string" where
  "outDir_of root d = path_join [logRoot_of root, formatDateFolder d]"

definition baseName_of :: "js_date \<Rightarrow> string" where
  "baseName_of d = ''session_'' @ formatTimeDashMs d @ ''.md''"

definition outPath_of :: "string \<Rightarrow> js_date \<Rightarrow> string" where
  "outPath_of root d = path_join [outDir_of root d, baseName_of d]"

definition transcript_of :: "SaveCopilotSessionArgs \<Rightarrow> string" where
  "transcript_of args = js_trim (nullish (transcriptMarkdown args) [])"

text \<open>The object literal passed to \<open>applyTemplate\<close>, in the order of its keys.\<close>

definition replacements_of :: "host \<Rightarrow> string \<Rightarrow> js_date \<Rightarrow> string \<Rightarrow> (string \<times> string) list" where
  "replacements_of h root d transcript =
     [(''{{DATE}}'', formatDateFolder d),
      (''{{TIME_COLON}}'', formatTimeColon d),
      (''{{TIME_DASH}}'', formatTimeDash d),
      (''{{TIME_DASH_MS}}'', formatTimeDashMs d),
      (''{{WORKSPACE_ROOT}}'', root),
      (''{{PROJECT_NAME}}'', path_basename root),
      (''{{OS}}'', process_platform h),
      (''{{MODEL}}'', ''GPT-5.2''),
      (''{{TRANSCRIPT}}'', transcript)]"

definition saveCopilotSession ::
    "host \<Rightarrow> SaveCopilotSessionArgs \<Rightarrow> filesystem \<Rightarrow> (fs_error + save_result) \<times> filesystem" where
  "saveCopilotSession h args fs =
     (case savedAt_of h args of
        None \<Rightarrow> (Inr (Error invalid_savedAt_message), fs)
      | Some d \<Rightarrow>
          let root = workspaceRoot_of h args;
              logRoot = logRoot_of root;
              outDir = outDir_of root d
          in (case ensureDir fs outDir of
                Inl e \<Rightarrow> (Inl e, fs)
              | Inr fs1 \<Rightarrow>
                  let outPath = outPath_of root d
                  in (case loadOrCreateTemplate fs1 logRoot of
                        (Inl e, fs2) \<Rightarrow> (Inl e, fs2)
                      | (Inr template, fs2) \<Rightarrow>
                          let transcript = transcript_of args
                          in if transcript = [] then (Inr (Error no_transcript_message), fs2)
                             else
                               let rendered =
                                     applyTemplate template (replacements_of h root d transcript)
                               in (case writeFile fs2 outPath rendered of
                                     Inl e \<Rightarrow> (Inl e, fs2)
                                   | Inr fs3 \<Rightarrow> (Inr (SavedPath outPath), fs3)))))"

subsection \<open>The tool dispatcher\<close>

record tool_response =
  content_text :: string
  isError :: bool

text \<open>\<open>input.workspaceRoot ?? cli.workspaceRoot ?? process.cwd()\<close>\<close>

definition effective_workspaceRoot ::
    "host \<Rightarrow> cli_args \<Rightarrow> SaveCopilotSessionArgs \<Rightarrow> string" where
  "effective_workspaceRoot h cli input =
     nullish (workspaceRoot input) (nullish (cli_workspaceRoot cli) (process_cwd h))"

definition no_arguments :: SaveCopilotSessionArgs where
  "no_arguments = \<lparr>transcriptMarkdown = None, savedAt = None, workspaceRoot = None\<rparr>"

definition callTool ::
    "host \<Rightarrow> cli_args \<Rightarrow> string \<Rightarrow> SaveCopilotSessionArgs option \<Rightarrow> filesystem
      \<Rightarrow> (fs_error + tool_response) \<times> filesystem" where
  "callTool h cli name arguments fs =
     (if name \<noteq> ''save-copilot-session''
      then (Inr \<lparr>content_text = ''Unknown tool: '' @ name, isError = True\<rparr>, fs)
      else
        let input = nullish arguments no_arguments
        in (case saveCopilotSession h
                  (input\<lparr>workspaceRoot := Some (effective_workspaceRoot h cli input)\<rparr>) fs of
              (Inl e, fs') \<Rightarrow> (Inl e, fs')
            | (Inr (Error msg), fs') \<Rightarrow> (Inr \<lparr>content_text = msg, isError = True\<rparr>, fs')
            | (Inr (SavedPath p), fs') \<Rightarrow> (Inr \<lparr>content_text = p, isError = False\<rparr>, fs')))"

section \<open>Vocabulary of the specification\<close>

text \<open>
  The notions the specification uses to describe outputs, stated on their own so
  that the program can be compared with them.
\<close>

definition is_digit :: "char \<Rightarrow> bool" where
  "is_digit c = (c \<in> set ''0123456789'')"

text \<open>
  \<open>has_shape pattern s\<close>: \<open>s\<close> has the length of \<open>pattern\<close>, a decimal digit
  wherever the pattern has the letter \<open>d\<close>, and the pattern's own character elsewhere.
\<close>

fun has_shape :: "string \<Rightarrow> string \<Rightarrow> bool" where
  "has_shape [] [] = True"
| "has_shape (p # ps) (c # cs) =
     ((if p = CHR ''d'' then is_digit c else c = p) \<and> has_shape ps cs)"
| "has_shape _ _ = False"

text \<open>The number a string of decimal digits denotes.\<close>

definition number_of :: "string \<Rightarrow> nat" where
  "number_of s = foldl (\<lambda>a c. 10 * a + (of_char c - 48)) 0 s"

text \<open>
  A workspace root in the normal form of \<open>path.normalize\<close>, other than \<open>.\<close> and
  not ending in a separator (so not the root directory either).
\<close>

definition normal_root :: "string \<Rightarrow> bool" where
  "normal_root root =
     (path_normalize root = root \<and> root \<noteq> ''.'' \<and> last root \<noteq> CHR ''/'')"

text \<open>A single path segment that normalisation keeps as it is.\<close>

definition clean_segment :: "string \<Rightarrow> bool" where
  "clean_segment s = (s \<noteq> [] \<and> s \<noteq> ''.'' \<and> s \<noteq> ''..'' \<and> CHR ''/'' \<notin> set s)"

text \<open>
  The renderer as the specification words it: one pass over the original template.
  Where a token of the replacement map starts, its value is written and the scan
  goes on after the token; the value written is never scanned. \<open>first_match\<close>
  gives the value of the first entry whose (non-empty) token starts the text, with
  the number of characters of that token after the first.
\<close>

fun first_match :: "(string \<times> string) list \<Rightarrow> string \<Rightarrow> (nat \<times> string) option" where
  "first_match [] s = None"
| "first_match ((key, value) # replacements) s =
     (if key \<noteq> [] \<and> prefix key s then Some (length key - 1, value)
      else first_match replacements s)"

function render_single_pass :: "(string \<times> string) list \<Rightarrow> string \<Rightarrow> string" where
  "render_single_pass replacements [] = []"
| "render_single_pass replacements (c # cs) =
     (case first_match replacements (c # cs) of
        Some (n, value) \<Rightarrow> value @ render_single_pass replacements (drop n cs)
      | None \<Rightarrow> c # render_single_pass replacements cs)"
  by pat_completeness auto
termination
  by (relation "measure (\<lambda>(replacements, s). length s)") auto

text \<open>
  The segment stacks \<open>normalizeString\<close> produces: \<open>..\<close> segments first (none of
  them unless \<open>allowAboveRoot\<close>), then segments that are kept as they are.
\<close>

definition normal_stack :: "bool \<Rightarrow> string list \<Rightarrow> bool" where
  "normal_stack allowAboveRoot st =
     (\<exists>n ys. st = replicate n ''..'' @ ys \<and> list_all clean_segment ys
        \<and> (allowAboveRoot \<or> n = 0))"

text \<open>The transcript argument is absent, empty or made of white space only.\<close>

definition blank_transcript :: "SaveCopilotSessionArgs \<Rightarrow> bool" where
  "blank_transcript args =
     (case transcriptMarkdown args of None \<Rightarrow> True | Some s \<Rightarrow> list_all js_whitespace s)"

text \<open>
  A host and a file system for the examples. The parser of the example host accepts
  the one timestamp the examples use, read as local time, and rejects every
  other string; JavaScript also rejects the empty string and \<open>not-a-date\<close>.
\<close>

definition example_date :: js_date where
  "example_date =
     \<lparr>getFullYear = 2024, getMonth = 2, getDate = 5, getHours = 9,
      getMinutes = 7, getSeconds = 2, getMilliseconds = 4\<rparr>"

definition example_host :: host where
  "example_host =
     \<lparr>process_cwd = ''/home/user'', process_platform = ''linux'',
      date_now = example_date,
      date_parse = (\<lambda>s. if s = ''2024-03-05T09:07:02.004'' then Some example_date else None)\<rparr>"

definition empty_fs :: filesystem where
  "empty_fs = \<lparr>dirs = {}, files = Map.empty\<rparr>"

text \<open>
  The example file system after the output directory of the example date was
  created under \<open>/tmp/ws\<close>, and after the default template was written there too.
\<close>

definition fs_with_dirs :: filesystem where
  "fs_with_dirs =
     \<lparr>dirs = {''/tmp'', ''/tmp/ws'', ''/tmp/ws/copilot-session_log'',
              ''/tmp/ws/copilot-session_log/05-03-2024''},
      files = Map.empty\<rparr>"

definition fs_with_template :: filesystem where
  "fs_with_template =
     fs_with_dirs\<lparr>files := [''/tmp/ws/copilot-session_log/_TEMPLATE.md'' \<mapsto> defaultTemplate]\<rparr>"

text \<open>
  Two file systems on which an operation of the handler fails: one with a regular
  file where the log root should be, one with a directory where the template
  file should be.
\<close>

definition fs_file_at_logRoot :: filesystem where
  "fs_file_at_logRoot =
     \<lparr>dirs = {''/tmp'', ''/tmp/ws''},
      files = [''/tmp/ws/copilot-session_log'' \<mapsto> ''not a directory'']\<rparr>"

definition fs_dir_at_template :: filesystem where
  "fs_dir_at_template =
     fs_with_dirs\<lparr>dirs := insert ''/tmp/ws/copilot-session_log/_TEMPLATE.md'' (dirs fs_with_dirs)\<rparr>"

text \<open>
  Templates written as a sequence of literal text and tokens. A token is named by
  its position in the list of the tokens; \<open>template_text\<close> is the template as
  the program reads it, \<open>substituted\<close> is the same sequence with every token
  replaced by the value at its position. A token is well formed when it opens with
  two braces followed by further text without an opening brace; a list of tokens is
  well formed when its tokens are, are pairwise different, and none begins another.
  A template is well formed when its literal parts have no opening brace, so that
  every opening brace of its text belongs to one of the tokens.
\<close>

datatype segment = Lit string | Tok nat

definition template_text :: "string list \<Rightarrow> segment list \<Rightarrow> string" where
  "template_text tokens segs =
     concat (map (\<lambda>seg. case seg of Lit s \<Rightarrow> s | Tok i \<Rightarrow> tokens ! i) segs)"

definition substituted :: "string list \<Rightarrow> segment list \<Rightarrow> string" where
  "substituted vals segs =
     concat (map (\<lambda>seg. case seg of Lit s \<Rightarrow> s | Tok i \<Rightarrow> vals ! i) segs)"

definition wf_token :: "string \<Rightarrow> bool" where
  "wf_token k = (take 2 k = ''{{'' \<and> drop 2 k \<noteq> [] \<and> CHR ''{'' \<notin> set (drop 2 k))"

definition wf_tokens :: "string list \<Rightarrow> bool" where
  "wf_tokens tokens =
     (list_all wf_token tokens \<and> distinct tokens
      \<and> list_all (\<lambda>k. list_all (\<lambda>k'. prefix k k' \<longrightarrow> k = k') tokens) tokens)"

definition wf_template :: "nat \<Rightarrow> segment list \<Rightarrow> bool" where
  "wf_template n segs =
     list_all (\<lambda>seg. case seg of Lit s \<Rightarrow> CHR ''{'' \<notin> set s | Tok i \<Rightarrow> i < n) segs"

text \<open>The nine tokens of the save handler, in the order of its replacement map.\<close>

definition handler_tokens :: "string list" where
  "handler_tokens =
     [''{{DATE}}'', ''{{TIME_COLON}}'', ''{{TIME_DASH}}'', ''{{TIME_DASH_MS}}'',
      ''{{WORKSPACE_ROOT}}'', ''{{PROJECT_NAME}}'', ''{{OS}}'', ''{{MODEL}}'',
      ''{{TRANSCRIPT}}'']"

text \<open>
  The text in which the tokens from position \<open>j\<close> on have been replaced by their
  values and the earlier ones are still in place.
\<close>

definition substituted_from :: "nat \<Rightarrow> string list \<Rightarrow> string list \<Rightarrow> segment list \<Rightarrow> string" where
  "substituted_from j tokens vals segs =
     concat (map (\<lambda>seg. case seg of Lit s \<Rightarrow> s
                          | Tok i \<Rightarrow> if j \<le> i then vals ! i else tokens ! i) segs)"

section \<open>Digits, padding and shapes\<close>

lemma digit_char_is_digit: "k < 10 \<Longrightarrow> is_digit (digit_char k)"
proof -
  assume "k < 10"
  then have "k \<in> {0,1,2,3,4,5,6,7,8,9}" by auto
  then show ?thesis by (auto simp: is_digit_def digit_char_def)
qed

lemma digit_char_value: "k < 10 \<Longrightarrow> of_char (digit_char k) - 48 = k"
proof -
  assume "k < 10"
  then have "k \<in> {0,1,2,3,4,5,6,7,8,9}" by auto
  then show ?thesis by (auto simp: digit_char_def)
qed

lemma digits_of_small: "n < 10 \<Longrightarrow> digits_of n = [digit_char n]"
  by (simp add: digits_of.simps)

lemma digits_of_two: "10 \<le> n \<Longrightarrow> n < 100 \<Longrightarrow> digits_of n = [digit_char (n div 10), digit_char (n mod 10)]"
  by (subst digits_of.simps) (simp add: digits_of_small)

lemma digits_of_three:
  "100 \<le> n \<Longrightarrow> n < 1000 \<Longrightarrow>
   digits_of n = [digit_char (n div 100), digit_char (n div 10 mod 10), digit_char (n mod 10)]"
  by (subst digits_of.simps) (simp add: digits_of_two div_mult2_eq[symmetric])

lemma digits_of_four:
  "1000 \<le> n \<Longrightarrow> n < 10000 \<Longrightarrow>
   digits_of n = [digit_char (n div 1000), digit_char (n div 100 mod 10),
                  digit_char (n div 10 mod 10), digit_char (n mod 10)]"
  by (subst digits_of.simps) (simp add: digits_of_three div_mult2_eq[symmetric])

lemma pad2_digits:
  assumes "0 \<le> n" "n \<le> 99"
  shows "pad2 n = [digit_char (nat n div 10), digit_char (nat n mod 10)]"
proof (cases "nat n < 10")
  case True
  then have "nat n div 10 = 0" "nat n mod 10 = nat n" by simp_all
  with True assms show ?thesis
    by (simp add: pad2_def padStart_def String_num_def digits_of_small digit_char_def)
next
  case False
  with assms show ?thesis
    by (simp add: pad2_def padStart_def String_num_def digits_of_two)
qed

lemma pad3_digits:
  assumes "0 \<le> n" "n \<le> 999"
  shows "pad3 n = [digit_char (nat n div 100), digit_char (nat n div 10 mod 10), digit_char (nat n mod 10)]"
proof -
  consider "nat n < 10" | "10 \<le> nat n" "nat n < 100" | "100 \<le> nat n" by linarith
  then show ?thesis
  proof cases
    case 1
    then have "nat n div 100 = 0" "nat n div 10 = 0" "nat n mod 10 = nat n" by simp_all
    with 1 assms show ?thesis
      by (simp add: pad3_def padStart_def String_num_def digits_of_small digit_char_def numeral_2_eq_2)
  next
    case 2
    then have "nat n div 100 = 0" "nat n div 10 mod 10 = nat n div 10" by simp_all
    with 2 assms show ?thesis
      by (simp add: pad3_def padStart_def String_num_def digits_of_two digit_char_def)
  next
    case 3
    with assms show ?thesis
      by (simp add: pad3_def padStart_def String_num_def digits_of_three)
  qed
qed

lemma year_digits:
  assumes "1000 \<le> n" "n \<le> 9999"
  shows "String_num n = [digit_char (nat n div 1000), digit_char (nat n div 100 mod 10),
                         digit_char (nat n div 10 mod 10), digit_char (nat n mod 10)]"
  using assms by (simp add: String_num_def digits_of_four)

lemma digit_char_not_sep: "k < 10 \<Longrightarrow> digit_char k \<noteq> CHR ''/''"
proof -
  assume "k < 10"
  then have "k \<in> {0,1,2,3,4,5,6,7,8,9}" by auto
  then show ?thesis by (auto simp: digit_char_def)
qed

lemma digits_of_no_sep: "CHR ''/'' \<notin> set (digits_of n)"
proof (induction n rule: digits_of.induct)
  case (1 n)
  show ?case
  proof (cases "n < 10")
    case True
    then show ?thesis using digit_char_not_sep[of n] by (auto simp: digits_of_small)
  next
    case False
    then have "digits_of n = digits_of (n div 10) @ [digit_char (n mod 10)]"
      by (subst digits_of.simps) simp
    with False 1 show ?thesis using digit_char_not_sep[of "n mod 10"] by auto
  qed
qed

lemma String_num_no_sep: "CHR ''/'' \<notin> set (String_num n)"
  by (simp add: String_num_def digits_of_no_sep)

lemma pad2_no_sep: "CHR ''/'' \<notin> set (pad2 n)"
  by (simp add: pad2_def padStart_def String_num_no_sep)

lemma pad3_no_sep: "CHR ''/'' \<notin> set (pad3 n)"
  by (simp add: pad3_def padStart_def String_num_no_sep)

lemma formatDateFolder_no_sep: "CHR ''/'' \<notin> set (formatDateFolder d)"
  by (simp add: formatDateFolder_def pad2_no_sep String_num_no_sep)

lemma formatDateFolder_has_dash: "CHR ''-'' \<in> set (formatDateFolder d)"
  by (simp add: formatDateFolder_def)

lemma formatTimeDashMs_no_sep: "CHR ''/'' \<notin> set (formatTimeDashMs d)"
  by (simp add: formatTimeDashMs_def formatTimeDash_def pad2_no_sep pad3_no_sep)

lemma split_at_key_nonempty: "split_at_key key s \<noteq> []"
  by (induction key s rule: split_at_key.induct)
     (auto simp: split_at_key.simps(2) split: list.splits)

lemma split_sep_Cons:
  "split_at_key ''/'' (c # cs) =
     (if c = CHR ''/'' then [] # split_at_key ''/'' cs
      else (case split_at_key ''/'' cs of [] \<Rightarrow> [[c]] | p # ps \<Rightarrow> (c # p) # ps))"
  by (subst split_at_key.simps(2)) simp

lemma split_sep_snoc:
  "CHR ''/'' \<notin> set s \<Longrightarrow>
   split_at_key ''/'' (a @ CHR ''/'' # s) = split_at_key ''/'' a @ [s]"
proof (induction a)
  case Nil
  have "split_at_key ''/'' s = [s]" using Nil
  proof (induction s)
    case Nil
    then show ?case by simp
  next
    case (Cons c cs)
    then show ?case by (auto simp: split_sep_Cons)
  qed
  then show ?case by (simp add: split_sep_Cons)
next
  case (Cons c a)
  obtain p ps where "split_at_key ''/'' a = p # ps"
    using split_at_key_nonempty by (cases "split_at_key ''/'' a") auto
  with Cons show ?case by (simp add: split_sep_Cons)
qed

lemma join_js_snoc: "xs \<noteq> [] \<Longrightarrow> join_js sep (xs @ [x]) = join_js sep xs @ sep @ x"
  by (induction sep xs rule: join_js.induct) auto

lemma join_js_Nil_iff: "join_js ''/'' xs = [] \<longleftrightarrow> xs = [] \<or> xs = [[]]"
  by (induction "''/''" xs rule: join_js.induct) auto

lemma path_join_normal_root:
  assumes r: "normal_root r" and s: "clean_segment s"
  shows "path_join [r, s] = r @ CHR ''/'' # s \<and> normal_root (r @ CHR ''/'' # s)"
proof -
  define ab where "ab = (hd r = CHR ''/'')"
  define st where "st = foldl (normalize_step (\<not> ab)) [] (split_js ''/'' r)"
  from r have rn: "r \<noteq> []" by (auto simp: normal_root_def path_normalize_def)
  from r have nr: "path_normalize r = r" and rd: "r \<noteq> ''.''" and rl: "last r \<noteq> CHR ''/''"
    by (simp_all add: normal_root_def)
  from s have sn: "s \<noteq> []" and sl: "CHR ''/'' \<notin> set s" and sd: "s \<noteq> ''.''" "s \<noteq> ''..''"
    by (simp_all add: clean_segment_def)
  have pr: "join_js ''/'' st \<noteq> []"
  proof
    assume "join_js ''/'' st = []"
    with nr rn rl have "r = ''/'' \<or> r = ''.''"
      by (auto simp: path_normalize_def normalizeString_def Let_def st_def ab_def split: if_splits)
    with rd rl show False by auto
  qed
  then have stn: "st \<noteq> []" by auto
  have req: "r = (if ab then ''/'' else []) @ join_js ''/'' st"
    using nr rn rl pr
    by (auto simp: path_normalize_def normalizeString_def Let_def st_def ab_def split: if_splits)
  have sp: "split_js ''/'' (r @ CHR ''/'' # s) = split_js ''/'' r @ [s]"
    using sl by (simp add: split_js_def split_sep_snoc)
  have step: "normalize_step b st s = st @ [s]" for b
    using sn sd by (simp add: normalize_step_def)
  have ns: "normalizeString (r @ CHR ''/'' # s) (\<not> ab) = join_js ''/'' st @ CHR ''/'' # s"
    by (simp add: normalizeString_def sp st_def[symmetric] step join_js_snoc stn)
  have hd_eq: "hd (r @ CHR ''/'' # s) = hd r" using rn by simp
  have last_s: "last s \<noteq> CHR ''/''" using sn sl by (metis last_in_set)
  have "path_normalize (r @ CHR ''/'' # s) =
          (if ab then ''/'' else []) @ (join_js ''/'' st @ CHR ''/'' # s)"
    using ns sn last_s
    by (simp add: path_normalize_def Let_def hd_eq ab_def[symmetric])
  also have "\<dots> = ((if ab then ''/'' else []) @ join_js ''/'' st) @ CHR ''/'' # s"
    by simp
  also have "\<dots> = r @ CHR ''/'' # s"
    using req by simp
  finally have pn: "path_normalize (r @ CHR ''/'' # s) = r @ CHR ''/'' # s" .
  have "path_join [r, s] = path_normalize (r @ CHR ''/'' # s)"
    using rn sn by (simp add: path_join_def Let_def)
  moreover have "r @ CHR ''/'' # s \<noteq> ''.''"
  proof
    assume "r @ CHR ''/'' # s = ''.''"
    then have "length (r @ CHR ''/'' # s) = 1" by simp
    with rn show False by (cases r) auto
  qed
  then have "normal_root (r @ CHR ''/'' # s)"
    using pn sn last_s by (simp add: normal_root_def)
  ultimately show ?thesis using pn by simp
qed

lemma decimal3: "100 * ((n::nat) div 100) + 10 * (n div 10 mod 10) + n mod 10 = n"
proof -
  have "n div 100 = n div 10 div 10" by (simp add: div_mult2_eq)
  then show ?thesis
    using mult_div_mod_eq[of 10 n] mult_div_mod_eq[of 10 "n div 10"] by linarith
qed

lemma decimal4:
  "1000 * ((n::nat) div 1000) + 100 * (n div 100 mod 10) + 10 * (n div 10 mod 10) + n mod 10 = n"
proof -
  have "n div 1000 = n div 100 div 10" by (simp add: div_mult2_eq)
  then show ?thesis
    using mult_div_mod_eq[of 10 "n div 100"] decimal3[of n] by linarith
qed

lemma number_of_two: "a < 10 \<Longrightarrow> b < 10 \<Longrightarrow> number_of [digit_char a, digit_char b] = 10 * a + b"
  by (simp add: number_of_def digit_char_value)

lemma number_of_three:
  "a < 10 \<Longrightarrow> b < 10 \<Longrightarrow> c < 10 \<Longrightarrow>
   number_of [digit_char a, digit_char b, digit_char c] = 100 * a + 10 * b + c"
  by (simp add: number_of_def digit_char_value)

lemma number_of_four:
  "a < 10 \<Longrightarrow> b < 10 \<Longrightarrow> c < 10 \<Longrightarrow> e < 10 \<Longrightarrow>
   number_of [digit_char a, digit_char b, digit_char c, digit_char e] = 1000 * a + 100 * b + 10 * c + e"
  by (simp add: number_of_def digit_char_value)

lemma pad2_shape:
  assumes "0 \<le> n" "n \<le> 99"
  shows "has_shape ''dd'' (pad2 n) \<and> number_of (pad2 n) = nat n \<and> length (pad2 n) = 2"
proof -
  have "nat n div 10 < 10" using assms by simp
  moreover have "nat n mod 10 < 10" by simp
  ultimately show ?thesis
    using assms by (simp add: pad2_digits digit_char_is_digit number_of_two)
qed

lemma pad3_shape:
  assumes "0 \<le> n" "n \<le> 999"
  shows "has_shape ''ddd'' (pad3 n) \<and> number_of (pad3 n) = nat n \<and> length (pad3 n) = 3"
proof -
  have a: "nat n div 100 < 10" using assms by simp
  have b: "nat n div 10 mod 10 < 10" "nat n mod 10 < 10" by simp_all
  show ?thesis
    using assms a b decimal3[of "nat n"]
    by (simp add: pad3_digits digit_char_is_digit number_of_three)
qed

lemma year_shape:
  assumes "1000 \<le> n" "n \<le> 9999"
  shows "has_shape ''dddd'' (String_num n) \<and> number_of (String_num n) = nat n"
proof -
  have a: "nat n div 1000 < 10" using assms by simp
  have b: "nat n div 100 mod 10 < 10" "nat n div 10 mod 10 < 10" "nat n mod 10 < 10" by simp_all
  show ?thesis
    using assms a b decimal4[of "nat n"]
    by (simp add: year_digits digit_char_is_digit number_of_four)
qed

lemma has_shape_appendI:
  "has_shape p s \<Longrightarrow> has_shape q t \<Longrightarrow> has_shape (p @ q) (s @ t)"
  by (induction p s rule: has_shape.induct) auto

lemma formatTimeDashMs_fields:
  assumes "valid_date d"
  shows "has_shape ''dd-dd-dd-ddd'' (formatTimeDashMs d)
       \<and> number_of (take 2 (formatTimeDashMs d)) = nat (getHours d)
       \<and> number_of (take 2 (drop 3 (formatTimeDashMs d))) = nat (getMinutes d)
       \<and> number_of (take 2 (drop 6 (formatTimeDashMs d))) = nat (getSeconds d)
       \<and> number_of (drop 9 (formatTimeDashMs d)) = nat (getMilliseconds d)"
proof -
  from assms have h: "0 \<le> getHours d" "getHours d \<le> 99"
    and m: "0 \<le> getMinutes d" "getMinutes d \<le> 99"
    and s: "0 \<le> getSeconds d" "getSeconds d \<le> 99"
    and ms: "0 \<le> getMilliseconds d" "getMilliseconds d \<le> 999"
    by (simp_all add: valid_date_def)
  note H = pad2_shape[OF h] and M = pad2_shape[OF m] and S = pad2_shape[OF s]
    and MS = pad3_shape[OF ms]
  have sh: "has_shape (''dd'' @ ''-'' @ ''dd'' @ ''-'' @ ''dd'' @ ''-'' @ ''ddd'')
         (pad2 (getHours d) @ ''-'' @ pad2 (getMinutes d) @ ''-'' @ pad2 (getSeconds d) @ ''-''
            @ pad3 (getMilliseconds d))"
    by (intro has_shape_appendI) (use H M S MS in simp_all)
  show ?thesis
    using sh H M S MS by (simp add: formatTimeDashMs_def formatTimeDash_def)
qed

lemma formatDateFolder_fields:
  assumes "valid_date d"
  shows "has_shape ''dd-dd-'' (take 6 (formatDateFolder d))
       \<and> number_of (take 2 (formatDateFolder d)) = nat (getDate d)
       \<and> number_of (take 2 (drop 3 (formatDateFolder d))) = nat (getMonth d + 1)
       \<and> drop 6 (formatDateFolder d) = String_num (getFullYear d)"
proof -
  from assms have a: "0 \<le> getDate d" "getDate d \<le> 99"
    and m: "0 \<le> getMonth d + 1" "getMonth d + 1 \<le> 99"
    by (simp_all add: valid_date_def)
  note A = pad2_shape[OF a] and M = pad2_shape[OF m]
  have sh: "has_shape (''dd'' @ ''-'' @ ''dd'' @ ''-'')
         (pad2 (getDate d) @ ''-'' @ pad2 (getMonth d + 1) @ ''-'')"
    by (intro has_shape_appendI) (use A M in simp_all)
  show ?thesis
    using sh A M by (simp add: formatDateFolder_def)
qed

lemma formatDateFolder_four_digit_year:
  assumes "valid_date d" "1000 \<le> getFullYear d" "getFullYear d \<le> 9999"
  shows "has_shape ''dd-dd-dddd'' (formatDateFolder d)
       \<and> number_of (drop 6 (formatDateFolder d)) = nat (getFullYear d)"
proof -
  note F = formatDateFolder_fields[OF assms(1)] and Y = year_shape[OF assms(2,3)]
  have "formatDateFolder d = take 6 (formatDateFolder d) @ drop 6 (formatDateFolder d)"
    by simp
  moreover have "has_shape (''dd-dd-'' @ ''dddd'')
      (take 6 (formatDateFolder d) @ drop 6 (formatDateFolder d))"
    by (intro has_shape_appendI) (use F Y in simp_all)
  ultimately show ?thesis using F Y by simp
qed

lemma clean_formatDateFolder: "clean_segment (formatDateFolder d)"
proof -
  have "formatDateFolder d \<noteq> ''.''" "formatDateFolder d \<noteq> ''..''" "formatDateFolder d \<noteq> []"
    using formatDateFolder_has_dash[of d] by auto
  then show ?thesis by (simp add: clean_segment_def formatDateFolder_no_sep)
qed

lemma clean_baseName: "clean_segment (baseName_of d)"
  by (simp add: clean_segment_def baseName_of_def formatTimeDashMs_no_sep)

lemma outPath_of_normal_root:
  assumes "normal_root root"
  shows "outPath_of root d =
     root @ ''/copilot-session_log/'' @ formatDateFolder d @ ''/session_'' @ formatTimeDashMs d @ ''.md''"
proof -
  have c: "clean_segment ''copilot-session_log''" by (simp add: clean_segment_def)
  note 1 = path_join_normal_root[OF assms c]
  note 2 = path_join_normal_root[OF conjunct2[OF 1] clean_formatDateFolder[of d]]
  note 3 = path_join_normal_root[OF conjunct2[OF 2] clean_baseName[of d]]
  show ?thesis
    using 1 2 3 by (simp add: outPath_of_def outDir_of_def logRoot_of_def baseName_of_def)
qed

section \<open>Template rendering, pass by pass\<close>

lemma join_js_Cons_piece:
  "join_js v ((c # p) # ps) = c # join_js v (p # ps)"
  by (cases ps) auto

lemma join_js_empty_piece:
  "ps \<noteq> [] \<Longrightarrow> join_js v ([] # ps) = v @ join_js v ps"
  by (cases ps) auto

text \<open>One step of \<open>applyTemplate\<close>, read from the left of the text.\<close>

lemma replace_step:
  "key \<noteq> [] \<Longrightarrow>
   join_js v (split_js key (c # cs)) =
     (if prefix key (c # cs) then v @ join_js v (split_js key (drop (length key) (c # cs)))
      else c # join_js v (split_js key cs))"
proof -
  assume k: "key \<noteq> []"
  obtain p ps where "split_at_key key cs = p # ps"
    using split_at_key_nonempty[of key cs] by (cases "split_at_key key cs") auto
  then show ?thesis
    using k split_at_key_nonempty[of key "drop (length key) (c # cs)"]
    by (simp add: split_js_def split_at_key.simps(2) join_js_Cons_piece join_js_empty_piece)
qed

lemma replace_Nil: "key \<noteq> [] \<Longrightarrow> join_js v (split_js key []) = []"
  by (simp add: split_js_def)

lemma single_entry_pass:
  "key \<noteq> [] \<Longrightarrow> render_single_pass [(key, v)] s = join_js v (split_js key s)"
proof (induction "[(key, v)]" s rule: render_single_pass.induct)
  case 1
  then show ?case by (simp add: replace_Nil)
next
  case (2 c cs)
  show ?case
  proof (cases "prefix key (c # cs)")
    case True
    with 2 have "render_single_pass [(key, v)] (drop (length key - 1) cs) =
        join_js v (split_js key (drop (length key - 1) cs))"
      by simp
    moreover have "drop (length key) (c # cs) = drop (length key - 1) cs"
      using 2(3) by (cases key) auto
    ultimately show ?thesis
      using True 2(3) by (simp add: replace_step)
  next
    case False
    with 2 show ?thesis by (simp add: replace_step)
  qed
qed

lemma applyTemplate_append:
  "applyTemplate t (rs @ rs') = applyTemplate (applyTemplate t rs) rs'"
  by (induction t rs rule: applyTemplate.induct) auto

lemma applyTemplate_snoc:
  "applyTemplate t (rs @ [(key, v)]) = join_js v (split_js key (applyTemplate t rs))"
  by (simp add: applyTemplate_append)

lemma applyTemplate_fold_passes:
  "list_all (\<lambda>(key, v). key \<noteq> []) rs \<Longrightarrow>
   applyTemplate t rs = fold (\<lambda>entry out. render_single_pass [entry] out) rs t"
  by (induction t rs rule: applyTemplate.induct) (auto simp: single_entry_pass)

section \<open>Normalised paths\<close>

lemma split_sep_pieces: "p \<in> set (split_at_key ''/'' s) \<Longrightarrow> CHR ''/'' \<notin> set p"
proof (induction s arbitrary: p)
  case Nil
  then show ?case by simp
next
  case (Cons c cs)
  obtain q qs where q: "split_at_key ''/'' cs = q # qs"
    using split_at_key_nonempty[of "''/''" cs] by (cases "split_at_key ''/'' cs") auto
  show ?case
  proof (cases "c = CHR ''/''")
    case True
    with Cons show ?thesis by (auto simp: split_sep_Cons)
  next
    case False
    with Cons.prems q have "p = c # q \<or> p \<in> set qs" by (auto simp: split_sep_Cons)
    with Cons.IH[of q] Cons.IH[of p] q False show ?thesis by auto
  qed
qed

lemma split_sep_free: "CHR ''/'' \<notin> set s \<Longrightarrow> split_at_key ''/'' s = [s]"
  by (induction s) (auto simp: split_sep_Cons)

lemma split_sep_first:
  "CHR ''/'' \<notin> set s \<Longrightarrow> split_at_key ''/'' (s @ CHR ''/'' # r) = s # split_at_key ''/'' r"
  by (induction s) (auto simp: split_sep_Cons)

lemma split_join_sep:
  "xs \<noteq> [] \<Longrightarrow> list_all (\<lambda>s. CHR ''/'' \<notin> set s) xs \<Longrightarrow>
   split_at_key ''/'' (join_js ''/'' xs) = xs"
  by (induction "''/''" xs rule: join_js.induct) (auto simp: split_sep_free split_sep_first)

lemma normal_stackI:
  "st = replicate n ''..'' @ ys \<Longrightarrow> list_all clean_segment ys \<Longrightarrow> a \<or> n = 0 \<Longrightarrow>
   normal_stack a st"
  by (auto simp: normal_stack_def)

lemma normal_stack_Nil: "normal_stack a []"
  by (auto simp: normal_stack_def)

lemma normal_stack_step:
  assumes "normal_stack a res" and "CHR ''/'' \<notin> set seg"
  shows "normal_stack a (normalize_step a res seg)"
proof -
  from assms(1) obtain n ys where st: "res = replicate n ''..'' @ ys"
    and ys: "list_all clean_segment ys" and n: "a \<or> n = 0"
    by (auto simp: normal_stack_def)
  consider "seg = [] \<or> seg = ''.''" | "seg = ''..''" | "clean_segment seg"
    using assms(2) by (auto simp: clean_segment_def)
  then show ?thesis
  proof cases
    case 1
    then show ?thesis using assms(1) by (auto simp: normalize_step_def)
  next
    case 2
    show ?thesis
    proof (cases "ys = []")
      case True
      with st have res: "res = replicate n ''..''" by simp
      then have l: "res \<noteq> [] \<Longrightarrow> last res = ''..''" by (cases n) auto
      have "normalize_step a res seg = (if a then replicate (Suc n) ''..'' else res)"
        using 2 l res by (auto simp: normalize_step_def replicate_append_same)
      then show ?thesis
        using assms(1) by (auto simp: normal_stack_def intro!: exI[of _ "Suc n"] exI[of _ "[]"])
    next
      case False
      then have "last res = last ys" "res \<noteq> []" using st by auto
      moreover have "clean_segment (last ys)"
        using ys False by (simp add: list_all_iff)
      ultimately have "normalize_step a res seg = butlast res"
        using 2 by (auto simp: normalize_step_def clean_segment_def)
      also have "\<dots> = replicate n ''..'' @ butlast ys"
        using st False by (simp add: butlast_append)
      finally show ?thesis
        using ys n by (auto simp: normal_stack_def list_all_iff dest: in_set_butlastD)
    qed
  next
    case 3
    then have "normalize_step a res seg = replicate n ''..'' @ (ys @ [seg])"
      using st by (auto simp: normalize_step_def clean_segment_def)
    then show ?thesis
      using ys n 3 by (intro normal_stackI[of _ n "ys @ [seg]"]) auto
  qed
qed

lemma normal_stack_foldl:
  "normal_stack a acc \<Longrightarrow> list_all (\<lambda>s. CHR ''/'' \<notin> set s) segs \<Longrightarrow>
   normal_stack a (foldl (normalize_step a) acc segs)"
  by (induction segs arbitrary: acc) (auto simp: normal_stack_step)

lemma normal_stack_butlast: "normal_stack a (st @ [x]) \<Longrightarrow> normal_stack a st"
proof -
  assume "normal_stack a (st @ [x])"
  then obtain n ys where st: "st @ [x] = replicate n ''..'' @ ys"
    and ys: "list_all clean_segment ys" and n: "a \<or> n = 0"
    by (auto simp: normal_stack_def)
  show ?thesis
  proof (cases "ys = []")
    case True
    with st have "st @ [x] = replicate n ''..''" by simp
    then obtain m where "n = Suc m" by (cases n) auto
    with \<open>st @ [x] = replicate n ''..''\<close> have "st = replicate m ''..''"
      by (simp add: replicate_append_same[symmetric])
    with n \<open>n = Suc m\<close> show ?thesis
      by (auto simp: normal_stack_def intro!: exI[of _ m] exI[of _ "[]"])
  next
    case False
    then have "st = replicate n ''..'' @ butlast ys"
      using st by (metis butlast_append butlast_snoc)
    with ys n show ?thesis
      by (auto simp: normal_stack_def list_all_iff dest: in_set_butlastD)
  qed
qed

lemma normal_stack_last:
  assumes "normal_stack a (st @ [x])"
  shows "clean_segment x \<or> (x = ''..'' \<and> a \<and> (st = [] \<or> last st = ''..''))"
proof -
  from assms obtain n ys where st: "st @ [x] = replicate n ''..'' @ ys"
    and ys: "list_all clean_segment ys" and n: "a \<or> n = 0"
    by (auto simp: normal_stack_def)
  show ?thesis
  proof (cases "ys = []")
    case True
    with st have e: "st @ [x] = replicate n ''..''" by simp
    then obtain m where m: "n = Suc m" by (cases n) auto
    with e have "st = replicate m ''..''" "x = ''..''"
      by (simp_all add: replicate_append_same[symmetric])
    moreover have "m = 0 \<or> last (replicate m ''..'') = ''..''"
      by (cases m) auto
    ultimately show ?thesis using n m by auto
  next
    case False
    then have "x = last ys" using st by (metis last_appendR last_snoc)
    with ys False show ?thesis by (simp add: list_all_iff)
  qed
qed

lemma normal_stack_fixed:
  "normal_stack a st \<Longrightarrow> foldl (normalize_step a) [] st = st"
proof (induction st rule: rev_induct)
  case Nil
  then show ?case by simp
next
  case (snoc x st)
  from snoc have ih: "foldl (normalize_step a) [] st = st"
    using normal_stack_butlast by blast
  from normal_stack_last[OF snoc.prems]
  have "normalize_step a st x = st @ [x]"
    by (auto simp: normalize_step_def clean_segment_def)
  with ih show ?case by simp
qed

lemma normal_stack_elem:
  "normal_stack a st \<Longrightarrow> x \<in> set st \<Longrightarrow> x \<noteq> [] \<and> CHR ''/'' \<notin> set x"
proof -
  assume "normal_stack a st" and x: "x \<in> set st"
  then obtain n ys where "st = replicate n ''..'' @ ys" and ys: "list_all clean_segment ys"
    by (auto simp: normal_stack_def)
  with x have "x = ''..'' \<or> x \<in> set ys" by auto
  then show ?thesis
  proof
    assume "x = ''..''"
    then show ?thesis by simp
  next
    assume "x \<in> set ys"
    with ys have "clean_segment x" by (simp add: list_all_iff)
    then show ?thesis by (simp add: clean_segment_def)
  qed
qed

lemma join_js_suffix: "\<exists>u. join_js sep (xs @ [x]) = u @ x"
  by (cases "xs = []") (auto simp: join_js_snoc)

lemma join_js_hd: "x \<noteq> [] \<Longrightarrow> hd (join_js sep (x # xs)) = hd x"
  by (cases xs) auto

lemma normalize_step_empty: "normalize_step a res [] = res"
  by (simp add: normalize_step_def)

lemma path_join_is_normal:
  assumes s: "clean_segment seg"
  shows "normal_root (path_join [root, seg])"
proof -
  define joined where "joined = (if root = [] then seg else root @ CHR ''/'' # seg)"
  define ab where "ab = (hd joined = CHR ''/'')"
  define pre where "pre = (if root = [] then [] else split_at_key ''/'' root)"
  define st where "st = foldl (normalize_step (\<not> ab)) [] pre"
  define p where "p = join_js ''/'' (st @ [seg])"
  define R where "R = (if ab then ''/'' else []) @ p"
  from s have sn: "seg \<noteq> []" and sl: "CHR ''/'' \<notin> set seg"
    and sd: "seg \<noteq> ''.''" "seg \<noteq> ''..''"
    by (simp_all add: clean_segment_def)
  have last_s: "last seg \<noteq> CHR ''/''" using sn sl by (metis last_in_set)
  have jn: "joined \<noteq> []" using sn by (simp add: joined_def)
  have jl: "last joined \<noteq> CHR ''/''" using sn last_s by (simp add: joined_def)
  have pj: "path_join [root, seg] = path_normalize joined"
    using sn by (simp add: path_join_def joined_def Let_def)
  have sp: "split_js ''/'' joined = pre @ [seg]"
    using sl by (simp add: split_js_def joined_def pre_def split_sep_snoc split_sep_free)
  have "list_all (\<lambda>s. CHR ''/'' \<notin> set s) pre"
    using split_sep_pieces by (auto simp: pre_def list_all_iff)
  then have nst: "normal_stack (\<not> ab) st"
    unfolding st_def by (intro normal_stack_foldl normal_stack_Nil)
  have step: "normalize_step (\<not> ab) st seg = st @ [seg]"
    using sn sd by (simp add: normalize_step_def)
  have nst': "normal_stack (\<not> ab) (st @ [seg])"
    using normal_stack_step[OF nst sl, of] step by simp
  have ns: "normalizeString joined (\<not> ab) = p"
    by (simp add: normalizeString_def sp st_def[symmetric] step p_def)
  have pn: "p \<noteq> []"
    using sn by (auto simp: p_def join_js_Nil_iff)
  have res: "path_normalize joined = R"
    using jn jl ns pn by (simp add: path_normalize_def Let_def ab_def[symmetric] R_def)
  have elems: "list_all (\<lambda>s. CHR ''/'' \<notin> set s) (st @ [seg])"
    and elems_ne: "\<And>x. x \<in> set (st @ [seg]) \<Longrightarrow> x \<noteq> []"
    using normal_stack_elem[OF nst'] by (auto simp: list_all_iff)
  obtain x xs where xs: "st @ [seg] = x # xs" by (cases "st @ [seg]") auto
  have hdp: "hd p \<noteq> CHR ''/''"
  proof -
    have "x \<noteq> []" "CHR ''/'' \<notin> set x"
      using normal_stack_elem[OF nst', of x] xs by auto
    then have "hd x \<noteq> CHR ''/''" by (cases x) auto
    then show ?thesis using \<open>x \<noteq> []\<close> by (simp add: p_def xs join_js_hd)
  qed
  obtain u where u: "p = u @ seg" using join_js_suffix[of "''/''" st seg] by (auto simp: p_def)
  have lastp: "last p \<noteq> CHR ''/''" using u sn last_s by simp
  have Rn: "R \<noteq> []" using pn by (simp add: R_def)
  have hdR: "(hd R = CHR ''/'') = ab" using hdp pn by (simp add: R_def)
  have lastR: "last R \<noteq> CHR ''/''" using lastp pn by (simp add: R_def)
  have splitR: "foldl (normalize_step (\<not> ab)) [] (split_js ''/'' R) = st @ [seg]"
  proof -
    have "split_at_key ''/'' p = st @ [seg]"
      unfolding p_def using elems by (intro split_join_sep) auto
    then have "split_js ''/'' R = (if ab then [[]] else []) @ (st @ [seg])"
      by (simp add: R_def split_js_def split_sep_Cons)
    then have "foldl (normalize_step (\<not> ab)) [] (split_js ''/'' R)
        = foldl (normalize_step (\<not> ab)) [] (st @ [seg])"
      by (simp add: normalize_step_empty del: foldl_append)
    then show ?thesis using normal_stack_fixed[OF nst'] by simp
  qed
  have nsR: "normalizeString R (\<not> ab) = p"
    by (simp only: normalizeString_def splitR p_def)
  have "path_normalize R = (if ab then ''/'' else []) @ p @ []"
    unfolding path_normalize_def Let_def hdR nsR using Rn lastR pn by simp
  then have fixed: "path_normalize R = R"
    by (simp add: R_def)
  have "R \<noteq> ''.''"
  proof
    assume "R = ''.''"
    then have "\<not> ab" "p = ''.''" using pn by (auto simp: R_def split: if_splits)
    with u sn sd show False by (cases u) auto
  qed
  then show ?thesis using fixed lastR by (simp add: pj res normal_root_def)
qed

lemma normal_logRoot: "normal_root (logRoot_of root)"
  unfolding logRoot_of_def by (rule path_join_is_normal) (simp add: clean_segment_def)

section \<open>The handler's paths and file-system effects\<close>

lemma outDir_of_eq: "outDir_of root d = logRoot_of root @ CHR ''/'' # formatDateFolder d"
  unfolding outDir_of_def
  using path_join_normal_root[OF normal_logRoot clean_formatDateFolder] by simp

lemma normal_outDir: "normal_root (outDir_of root d)"
  unfolding outDir_of_def
  using path_join_normal_root[OF normal_logRoot clean_formatDateFolder] by simp

lemma outPath_of_eq: "outPath_of root d = outDir_of root d @ CHR ''/'' # baseName_of d"
  unfolding outPath_of_def
  using path_join_normal_root[OF normal_outDir clean_baseName] by simp

lemma templatePath_of_eq:
  "templatePath_of (logRoot_of root) = logRoot_of root @ ''/_TEMPLATE.md''"
proof -
  have "clean_segment ''_TEMPLATE.md''" by (simp add: clean_segment_def)
  from path_join_normal_root[OF normal_logRoot this]
  show ?thesis by (simp add: templatePath_of_def)
qed

lemma parent_path_snoc: "CHR ''/'' \<notin> set s \<Longrightarrow> parent_path (p @ CHR ''/'' # s) = p"
proof -
  assume "CHR ''/'' \<notin> set s"
  then have "\<forall>x \<in> set (rev s). x \<noteq> CHR ''/''" by auto
  then have "dropWhile (\<lambda>c. c \<noteq> CHR ''/'') (rev s @ CHR ''/'' # rev p)
      = dropWhile (\<lambda>c. c \<noteq> CHR ''/'') (CHR ''/'' # rev p)"
    by (simp add: dropWhile_append)
  then show ?thesis by (simp add: parent_path_def)
qed

lemma normal_root_nonempty: "normal_root p \<Longrightarrow> p \<noteq> [] \<and> p \<noteq> ''/''"
  by (auto simp: normal_root_def path_normalize_def)

lemma dir_chain_self: "p \<noteq> [] \<Longrightarrow> p \<noteq> ''/'' \<Longrightarrow> p \<in> set (dir_chain p)"
  by (simp add: dir_chain_def)

lemma dir_chain_parent:
  "p \<noteq> [] \<Longrightarrow> p \<noteq> ''/'' \<Longrightarrow> p \<in> set (dir_chain (p @ CHR ''/'' # s))"
  by (simp add: dir_chain_def)

lemma ensureDir_effect:
  "ensureDir fs p = Inr fs1 \<Longrightarrow> files fs1 = files fs \<and> dirs fs1 = dirs fs \<union> set (dir_chain p)"
  by (auto simp: ensureDir_def split: if_splits)

lemma loadOrCreateTemplate_effect:
  assumes "loadOrCreateTemplate fs logRoot = (r, fs')"
  shows "dirs fs' = dirs fs
       \<and> (\<forall>q. files fs' q \<noteq> files fs q \<longrightarrow>
              q = templatePath_of logRoot \<and> files fs q = None
              \<and> files fs' q = Some defaultTemplate \<and> r = Inr defaultTemplate)"
  using assms
  by (auto simp: loadOrCreateTemplate_def Let_def fileExists_def writeFile_def
      split: if_splits sum.splits)

lemma js_trim_Nil_iff: "js_trim s = [] \<longleftrightarrow> list_all js_whitespace s"
proof
  assume "js_trim s = []"
  then have a: "\<forall>x \<in> set (dropWhile js_whitespace s). js_whitespace x"
    by (simp add: js_trim_def)
  have "dropWhile js_whitespace s = []"
  proof (rule ccontr)
    assume n: "dropWhile js_whitespace s \<noteq> []"
    then have "\<not> js_whitespace (hd (dropWhile js_whitespace s))" by (rule hd_dropWhile)
    moreover have "hd (dropWhile js_whitespace s) \<in> set (dropWhile js_whitespace s)"
      using n by simp
    ultimately show False using a by blast
  qed
  then show "list_all js_whitespace s" by (simp add: list_all_iff)
next
  assume "list_all js_whitespace s"
  then have d: "dropWhile js_whitespace s = []" by (simp add: list_all_iff)
  show "js_trim s = []" unfolding js_trim_def d by simp
qed

lemma blank_transcript_iff: "blank_transcript args \<longleftrightarrow> transcript_of args = []"
  by (simp add: blank_transcript_def transcript_of_def nullish_def js_trim_Nil_iff
      split: option.splits)

lemma messages_differ: "no_transcript_message \<noteq> invalid_savedAt_message"
  by (simp add: no_transcript_message_def invalid_savedAt_message_def)

lemma outPath_not_templatePath:
  "outPath_of root d \<noteq> templatePath_of (logRoot_of root)"
proof
  assume "outPath_of root d = templatePath_of (logRoot_of root)"
  then have "formatDateFolder d @ CHR ''/'' # baseName_of d = ''_TEMPLATE.md''"
    by (simp add: outPath_of_eq outDir_of_eq templatePath_of_eq)
  then have "CHR ''/'' \<in> set ''_TEMPLATE.md''"
    by (metis in_set_conv_decomp)
  then show False by simp
qed

lemma loadOrCreateTemplate_result:
  "loadOrCreateTemplate fs logRoot = (Inr template, fs') \<Longrightarrow>
   files fs' (templatePath_of logRoot) = Some template"
  by (auto simp: loadOrCreateTemplate_def Let_def fileExists_def writeFile_def readFile_def
      split: if_splits sum.splits option.splits)

lemma ensureDir_creates:
  assumes "ensureDir fs (outDir_of root d) = Inr fs1"
  shows "outDir_of root d \<in> dirs fs1 \<and> logRoot_of root \<in> dirs fs1"
proof -
  note e = ensureDir_effect[OF assms]
  note n1 = normal_root_nonempty[OF normal_outDir[of root d]]
  note n2 = normal_root_nonempty[OF normal_logRoot[of root]]
  have "outDir_of root d \<in> set (dir_chain (outDir_of root d))"
    using n1 by (simp add: dir_chain_self)
  moreover have "logRoot_of root \<in> set (dir_chain (outDir_of root d))"
    using n2 by (simp add: outDir_of_eq dir_chain_parent)
  ultimately show ?thesis using e by simp
qed

section \<open>A run of the handler on the example host\<close>

lemma example_outDir:
  "outDir_of ''/tmp/ws'' example_date = ''/tmp/ws/copilot-session_log/05-03-2024''"
  by code_simp

lemma example_logRoot: "logRoot_of ''/tmp/ws'' = ''/tmp/ws/copilot-session_log''"
  by code_simp

lemma example_templatePath:
  "templatePath_of ''/tmp/ws/copilot-session_log'' = ''/tmp/ws/copilot-session_log/_TEMPLATE.md''"
  by code_simp

lemma example_dir_chain:
  "dir_chain ''/tmp/ws/copilot-session_log/05-03-2024'' =
     [''/tmp'', ''/tmp/ws'', ''/tmp/ws/copilot-session_log'',
      ''/tmp/ws/copilot-session_log/05-03-2024'']"
  by code_simp

lemma example_ensureDir:
  "ensureDir empty_fs (outDir_of ''/tmp/ws'' example_date) = Inr fs_with_dirs"
  unfolding example_outDir
  by (auto simp add: ensureDir_def empty_fs_def fs_with_dirs_def example_dir_chain)

lemma example_load:
  "loadOrCreateTemplate fs_with_dirs (logRoot_of ''/tmp/ws'') =
     (Inr defaultTemplate, fs_with_template)"
proof -
  have p: "parent_path ''/tmp/ws/copilot-session_log/_TEMPLATE.md'' = ''/tmp/ws/copilot-session_log''"
    by code_simp
  show ?thesis
    unfolding example_logRoot
    by (simp add: loadOrCreateTemplate_def Let_def example_templatePath fileExists_def
        writeFile_def dir_exists_def p fs_with_dirs_def fs_with_template_def)
qed

lemma example_outPath:
  "outPath_of ''/tmp/ws'' example_date
     = ''/tmp/ws/copilot-session_log/05-03-2024/session_09-07-02-004.md''"
  by code_simp

lemma example_rendered:
  "applyTemplate defaultTemplate (replacements_of example_host ''/tmp/ws'' example_date ''hello'')
     = ''# Copilot chat session 05-03-2024 09:07:02'' @ [CHR 10, CHR 10] @
       ''## Conversation'' @ [CHR 10, CHR 10] @ ''hello'' @ [CHR 10]"
  by code_simp

lemma example_run:
  assumes "savedAt_of example_host args = Some example_date"
    and "workspaceRoot args = Some ''/tmp/ws''"
    and "transcriptMarkdown args = Some ''hello''"
  shows "saveCopilotSession example_host args empty_fs =
     (Inr (SavedPath ''/tmp/ws/copilot-session_log/05-03-2024/session_09-07-02-004.md''),
      fs_with_template\<lparr>files := (files fs_with_template)
        (''/tmp/ws/copilot-session_log/05-03-2024/session_09-07-02-004.md'' \<mapsto>
           ''# Copilot chat session 05-03-2024 09:07:02'' @ [CHR 10, CHR 10] @
           ''## Conversation'' @ [CHR 10, CHR 10] @ ''hello'' @ [CHR 10])\<rparr>)"
proof -
  have w: "workspaceRoot_of example_host args = ''/tmp/ws''"
    using assms(2) by (simp add: workspaceRoot_of_def nullish_def)
  have "js_trim ''hello'' = ''hello''" by code_simp
  then have t: "transcript_of args = ''hello''"
    using assms(3) by (simp add: transcript_of_def nullish_def)
  have p: "parent_path ''/tmp/ws/copilot-session_log/05-03-2024/session_09-07-02-004.md''
      = ''/tmp/ws/copilot-session_log/05-03-2024''"
    by code_simp
  have wr: "writeFile fs_with_template
      ''/tmp/ws/copilot-session_log/05-03-2024/session_09-07-02-004.md'' content =
      Inr (fs_with_template\<lparr>files := (files fs_with_template)
        (''/tmp/ws/copilot-session_log/05-03-2024/session_09-07-02-004.md'' \<mapsto> content)\<rparr>)"
    for content
    by (simp add: writeFile_def p dir_exists_def fs_with_template_def fs_with_dirs_def)
  show ?thesis
    by (simp only: saveCopilotSession_def Let_def assms(1) w t example_ensureDir example_load
          example_outPath example_rendered wr option.case sum.case prod.case)
       simp
qed

section \<open>Outcomes of the save handler\<close>

lemma iso_in_message: "sublist ''ISO-8601'' invalid_savedAt_message"
proof -
  have "invalid_savedAt_message =
      ''Invalid 'savedAt' value. Expected an '' @ ''ISO-8601'' @ '' datetime string.''"
    by (simp add: invalid_savedAt_message_def)
  then show ?thesis unfolding sublist_def by blast
qed

lemma save_not_invalid_savedAt:
  "savedAt_of h args = Some d \<Longrightarrow>
   fst (saveCopilotSession h args fs) \<noteq> Inr (Error invalid_savedAt_message)"
  using messages_differ
  by (auto simp: saveCopilotSession_def Let_def split: sum.splits prod.splits)

lemma save_blank_outcome:
  assumes "blank_transcript args" and "savedAt_of h args = Some d"
  shows "fst (saveCopilotSession h args fs) = Inr (Error no_transcript_message)
       \<or> (\<exists>e. fst (saveCopilotSession h args fs) = Inl e)"
  using assms
  by (auto simp: saveCopilotSession_def Let_def blank_transcript_iff
      split: sum.splits prod.splits)

lemma save_blank_frame:
  assumes "blank_transcript args"
    and "files (snd (saveCopilotSession h args fs)) q \<noteq> files fs q"
  shows "q = templatePath_of (logRoot_of (workspaceRoot_of h args)) \<and> files fs q = None
       \<and> files (snd (saveCopilotSession h args fs)) q = Some defaultTemplate"
proof (cases "savedAt_of h args")
  case None
  with assms(2) show ?thesis by (simp add: saveCopilotSession_def)
next
  case (Some d)
  let ?root = "workspaceRoot_of h args"
  show ?thesis
  proof (cases "ensureDir fs (outDir_of ?root d)")
    case (Inl e)
    with Some assms(2) show ?thesis by (simp add: saveCopilotSession_def Let_def)
  next
    case (Inr fs1)
    obtain r fs2 where l: "loadOrCreateTemplate fs1 (logRoot_of ?root) = (r, fs2)"
      by (cases "loadOrCreateTemplate fs1 (logRoot_of ?root)") auto
    have "snd (saveCopilotSession h args fs) = fs2"
      using Some Inr l assms(1)
      by (auto simp: saveCopilotSession_def Let_def blank_transcript_iff split: sum.splits)
    with assms(2) ensureDir_effect[OF Inr] loadOrCreateTemplate_effect[OF l]
    show ?thesis by auto
  qed
qed

section \<open>The template store\<close>

lemma defaultTemplate_parts:
  "prefix ''# Copilot chat session {{DATE}} {{TIME_COLON}}'' defaultTemplate
   \<and> sublist ''{{TRANSCRIPT}}'' defaultTemplate"
  by code_simp

lemma template_parent_exists:
  assumes "ensureDir fs_before (outDir_of root d) = Inr fs"
  shows "dir_exists fs (parent_path (templatePath_of (logRoot_of root)))"
proof -
  have "parent_path (templatePath_of (logRoot_of root)) = logRoot_of root"
    using parent_path_snoc[of "''_TEMPLATE.md''" "logRoot_of root"]
    by (simp add: templatePath_of_eq)
  then show ?thesis
    using ensureDir_creates[OF assms] by (simp add: dir_exists_def)
qed

section \<open>Startup arguments and the dispatcher\<close>

lemma findIndex_absent: "\<forall>x \<in> set xs. \<not> p x \<Longrightarrow> findIndex p xs = - 1"
  by (induction xs) auto

lemma findIndex_first:
  "\<forall>x \<in> set pre. \<not> p x \<Longrightarrow> p y \<Longrightarrow> findIndex p (pre @ y # post) = int (length pre)"
  by (induction pre) auto

lemma at_index_after:
  "at_index (pre @ y # post) (int (length pre) + 1) = (case post of [] \<Rightarrow> None | v # _ \<Rightarrow> Some v)"
proof -
  have n: "nat (int (length pre) + 1) = Suc (length pre)" by simp
  show ?thesis
    by (cases post) (simp_all add: at_index_def n nth_append)
qed

lemma parseCliArgs_first_flag:
  assumes "''--workspaceRoot'' \<notin> set pre"
    and "drop 2 argv = pre @ ''--workspaceRoot'' # post"
  shows "parseCliArgs argv =
     (case post of
        [] \<Rightarrow> \<lparr>cli_workspaceRoot = None\<rparr>
      | v # _ \<Rightarrow> if v = [] then \<lparr>cli_workspaceRoot = None\<rparr> else \<lparr>cli_workspaceRoot = Some v\<rparr>)"
proof -
  have i: "findIndex (\<lambda>a. a = ''--workspaceRoot'') (pre @ ''--workspaceRoot'' # post)
      = int (length pre)"
    using assms(1) by (intro findIndex_first) auto
  have "parseCliArgs argv =
      (if truthy (at_index (pre @ ''--workspaceRoot'' # post) (int (length pre) + 1))
       then \<lparr>cli_workspaceRoot = at_index (pre @ ''--workspaceRoot'' # post) (int (length pre) + 1)\<rparr>
       else \<lparr>cli_workspaceRoot = None\<rparr>)"
    by (simp add: parseCliArgs_def Let_def assms(2) i)
  then show ?thesis
    unfolding at_index_after by (cases post) (simp_all add: truthy_def)
qed

lemma parseCliArgs_no_flag:
  assumes "''--workspaceRoot'' \<notin> set (drop 2 argv)"
  shows "parseCliArgs argv = \<lparr>cli_workspaceRoot = None\<rparr>"
proof -
  have "findIndex (\<lambda>a. a = ''--workspaceRoot'') (drop 2 argv) = - 1"
    using assms by (intro findIndex_absent) auto
  then show ?thesis by (simp add: parseCliArgs_def Let_def)
qed

lemma callTool_success_path:
  assumes "callTool h cli ''save-copilot-session'' (Some input) fs
      = (Inr \<lparr>content_text = p, isError = False\<rparr>, fs')"
  shows "\<exists>d. savedAt_of h input = Some d
       \<and> p = outPath_of (effective_workspaceRoot h cli input) d"
proof -
  let ?args = "input\<lparr>workspaceRoot := Some (effective_workspaceRoot h cli input)\<rparr>"
  have s: "savedAt_of h ?args = savedAt_of h input"
    by (simp add: savedAt_of_def)
  have w: "workspaceRoot_of h ?args = effective_workspaceRoot h cli input"
    by (simp add: workspaceRoot_of_def nullish_def)
  obtain r where r: "saveCopilotSession h ?args fs = (Inr (SavedPath p), r)"
    using assms
    by (auto simp: callTool_def Let_def nullish_def split: prod.splits sum.splits save_result.splits)
  show ?thesis
  proof (cases "savedAt_of h input")
    case None
    with r s show ?thesis by (simp add: saveCopilotSession_def)
  next
    case (Some d)
    with r s w have "p = outPath_of (effective_workspaceRoot h cli input) d"
      by (auto simp: saveCopilotSession_def Let_def split: sum.splits prod.splits if_splits)
    with Some show ?thesis by simp
  qed
qed

section \<open>Well-formed templates: sequential passes and the single pass agree\<close>

lemma wf_token_shape:
  assumes "wf_token k"
  obtains b body where "k = CHR ''{'' # CHR ''{'' # b # body" and "b \<noteq> CHR ''{''"
    and "CHR ''{'' \<notin> set body"
proof -
  from assms have t: "take 2 k = ''{{''" and d: "drop 2 k \<noteq> []"
    and n: "CHR ''{'' \<notin> set (drop 2 k)"
    by (simp_all add: wf_token_def)
  have k: "k = take 2 k @ drop 2 k" by simp
  obtain b body where bd: "drop 2 k = b # body" using d by (cases "drop 2 k") auto
  have "k = CHR ''{'' # CHR ''{'' # b # body" using k t bd by simp
  moreover have "b \<noteq> CHR ''{''" "CHR ''{'' \<notin> set body" using n bd by auto
  ultimately show ?thesis using that by blast
qed

lemma wf_tokens_nth:
  "wf_tokens K \<Longrightarrow> i < length K \<Longrightarrow> wf_token (K ! i)"
  by (simp add: wf_tokens_def list_all_length)

lemma wf_tokens_prefix_free:
  "wf_tokens K \<Longrightarrow> i < length K \<Longrightarrow> j < length K \<Longrightarrow> prefix (K ! i) (K ! j) \<Longrightarrow> i = j"
proof -
  assume w: "wf_tokens K" and i: "i < length K" and j: "j < length K"
    and p: "prefix (K ! i) (K ! j)"
  from w i j have "prefix (K ! i) (K ! j) \<longrightarrow> K ! i = K ! j"
    by (simp add: wf_tokens_def list_all_length)
  with p have "K ! i = K ! j" by simp
  moreover from w have "distinct K" by (simp add: wf_tokens_def)
  ultimately show "i = j" using i j by (simp add: nth_eq_iff_index_eq)
qed

lemma token_match_only_itself:
  assumes "wf_tokens K" "i < length K" "j < length K" "prefix (K ! j) (K ! i @ r)"
  shows "i = j"
proof -
  have "prefix (K ! i) (K ! i @ r)" by simp
  with assms(4) have "prefix (K ! j) (K ! i) \<or> prefix (K ! i) (K ! j)"
    by (rule prefix_same_cases)
  then show ?thesis
    using wf_tokens_prefix_free[OF assms(1)] assms(2,3) by blast
qed

text \<open>One pass over literal text, over its own token and over another token.\<close>

lemma replace_literal:
  assumes "key \<noteq> []" "hd key = CHR ''{''" "CHR ''{'' \<notin> set s"
  shows "join_js v (split_js key (s @ r)) = s @ join_js v (split_js key r)"
  using assms(3)
proof (induction s)
  case Nil
  then show ?case by simp
next
  case (Cons c s)
  then have "c \<noteq> hd key" using assms(2) by auto
  then have "\<not> prefix key (c # s @ r)" using assms(1) by (cases key) auto
  with Cons show ?case using assms(1) by (simp add: replace_step)
qed

lemma replace_own_token:
  assumes "key \<noteq> []"
  shows "join_js v (split_js key (key @ r)) = v @ join_js v (split_js key r)"
proof -
  obtain c cs where k: "key = c # cs" using assms by (cases key) auto
  have "join_js v (split_js key (c # cs @ r)) =
      v @ join_js v (split_js key (drop (length key) (c # cs @ r)))"
    using assms k by (subst replace_step) auto
  then show ?thesis using k by simp
qed

lemma replace_other_token:
  assumes w: "wf_tokens K" and i: "i < length K" and j: "j < length K" and ne: "i \<noteq> j"
  shows "join_js v (split_js (K ! j) (K ! i @ r)) = K ! i @ join_js v (split_js (K ! j) r)"
proof -
  let ?k = "K ! j"
  obtain b body where t: "K ! i = CHR ''{'' # CHR ''{'' # b # body" and b: "b \<noteq> CHR ''{''"
    and body: "CHR ''{'' \<notin> set body"
    using wf_token_shape[OF wf_tokens_nth[OF w i]] by blast
  obtain b' body' where k: "?k = CHR ''{'' # CHR ''{'' # b' # body'"
    using wf_token_shape[OF wf_tokens_nth[OF w j]] by blast
  have kn: "?k \<noteq> []" and hk: "hd ?k = CHR ''{''" using k by simp_all
  have 1: "\<not> prefix ?k (K ! i @ r)"
    using token_match_only_itself[OF w i j] ne by blast
  have 2: "\<not> prefix ?k (CHR ''{'' # b # body @ r)"
    using b by (simp add: k)
  have 3: "join_js v (split_js ?k ((b # body) @ r)) = (b # body) @ join_js v (split_js ?k r)"
    using b body by (intro replace_literal[OF kn hk]) auto
  have "join_js v (split_js ?k (CHR ''{'' # CHR ''{'' # b # body @ r))
      = CHR ''{'' # join_js v (split_js ?k (CHR ''{'' # b # body @ r))"
    using 1 kn by (subst replace_step) (simp_all add: t)
  also have "\<dots> = CHR ''{'' # CHR ''{'' # join_js v (split_js ?k (b # body @ r))"
    using 2 kn by (subst replace_step) simp_all
  also have "\<dots> = CHR ''{'' # CHR ''{'' # (b # body) @ join_js v (split_js ?k r)"
    using 3 by simp
  finally show ?thesis by (simp add: t)
qed

text \<open>A pass turns the occurrences of its token into literal text.\<close>

lemma template_text_Nil: "template_text K [] = []"
  by (simp add: template_text_def)

lemma template_text_Lit: "template_text K (Lit s # segs) = s @ template_text K segs"
  by (simp add: template_text_def)

lemma template_text_Tok: "template_text K (Tok i # segs) = K ! i @ template_text K segs"
  by (simp add: template_text_def)

lemma wf_template_Cons:
  "wf_template n (seg # segs) =
     ((case seg of Lit s \<Rightarrow> CHR ''{'' \<notin> set s | Tok i \<Rightarrow> i < n) \<and> wf_template n segs)"
  by (simp add: wf_template_def)

lemma pass_on_template:
  assumes w: "wf_tokens K" and j: "j < length K"
  shows "wf_template (length K) segs \<Longrightarrow>
     join_js v (split_js (K ! j) (template_text K segs)) =
       template_text K
         (map (\<lambda>seg. case seg of Lit s \<Rightarrow> Lit s | Tok i \<Rightarrow> if i = j then Lit v else Tok i) segs)"
proof (induction segs)
  case Nil
  obtain b body where "K ! j = CHR ''{'' # CHR ''{'' # b # body"
    using wf_token_shape[OF wf_tokens_nth[OF w j]] by blast
  then show ?case by (simp add: template_text_Nil split_js_def)
next
  case (Cons seg segs)
  obtain b body where k: "K ! j = CHR ''{'' # CHR ''{'' # b # body"
    using wf_token_shape[OF wf_tokens_nth[OF w j]] by blast
  then have kn: "K ! j \<noteq> []" and hk: "hd (K ! j) = CHR ''{''" by simp_all
  from Cons.prems have ih: "join_js v (split_js (K ! j) (template_text K segs)) =
       template_text K
         (map (\<lambda>seg. case seg of Lit s \<Rightarrow> Lit s | Tok i \<Rightarrow> if i = j then Lit v else Tok i) segs)"
    using Cons.IH by (simp add: wf_template_Cons)
  show ?case
  proof (cases seg)
    case (Lit s)
    with Cons.prems have "CHR ''{'' \<notin> set s" by (simp add: wf_template_Cons)
    from replace_literal[OF kn hk this] ih Lit show ?thesis
      by (simp add: template_text_Lit)
  next
    case (Tok i)
    with Cons.prems have i: "i < length K" by (simp add: wf_template_Cons)
    show ?thesis
    proof (cases "i = j")
      case True
      with Tok ih replace_own_token[OF kn] show ?thesis
        by (simp add: template_text_Tok template_text_Lit)
    next
      case False
      with Tok ih replace_other_token[OF w i j False] show ?thesis
        by (simp add: template_text_Tok)
    qed
  qed
qed

lemma wf_template_pass:
  "wf_template n segs \<Longrightarrow> CHR ''{'' \<notin> set v \<Longrightarrow>
   wf_template n
     (map (\<lambda>seg. case seg of Lit s \<Rightarrow> Lit s | Tok i \<Rightarrow> if i = j then Lit v else Tok i) segs)"
  by (auto simp: wf_template_def list_all_iff split: segment.splits)

lemma substituted_from_pass:
  "substituted_from (Suc j) K V
     (map (\<lambda>seg. case seg of Lit s \<Rightarrow> Lit s | Tok i \<Rightarrow> if i = j then Lit (V ! j) else Tok i) segs)
   = substituted_from j K V segs"
proof (induction segs)
  case Nil
  then show ?case by (simp add: substituted_from_def)
next
  case (Cons seg segs)
  then show ?case
    by (cases seg) (auto simp: substituted_from_def)
qed

lemma substituted_from_end:
  "wf_template n segs \<Longrightarrow> substituted_from n K V segs = template_text K segs"
proof (induction segs)
  case Nil
  then show ?case by (simp add: substituted_from_def template_text_def)
next
  case (Cons seg segs)
  then show ?case
    by (cases seg) (auto simp: substituted_from_def template_text_def wf_template_def)
qed

lemma last_pass_text:
  "wf_template (Suc j) segs \<Longrightarrow>
   template_text K
     (map (\<lambda>seg. case seg of Lit s \<Rightarrow> Lit s | Tok i \<Rightarrow> if i = j then Lit (V ! j) else Tok i) segs)
   = substituted_from j K V segs"
proof (induction segs)
  case Nil
  then show ?case by (simp add: substituted_from_def template_text_def)
next
  case (Cons seg segs)
  then show ?case
    by (cases seg)
      (auto simp: substituted_from_def template_text_def wf_template_def less_Suc_eq_le
            dest: le_antisym)
qed

lemma sequential_on_template:
  assumes w: "wf_tokens K" and l: "length V = length K"
  shows "j \<le> length K \<Longrightarrow> wf_template (length K) segs \<Longrightarrow>
     (\<forall>i. j \<le> i \<and> Suc i < length K \<longrightarrow> CHR ''{'' \<notin> set (V ! i)) \<Longrightarrow>
     applyTemplate (template_text K segs) (drop j (zip K V)) = substituted_from j K V segs"
proof (induction "length K - j" arbitrary: j segs)
  case 0
  then have "j = length K" by simp
  then show ?case using 0 l by (simp add: substituted_from_end)
next
  case (Suc m)
  then have j: "j < length K" by simp
  let ?segs = "map (\<lambda>seg. case seg of Lit s \<Rightarrow> Lit s
                        | Tok i \<Rightarrow> if i = j then Lit (V ! j) else Tok i) segs"
  have d: "drop j (zip K V) = (K ! j, V ! j) # drop (Suc j) (zip K V)"
    using j l by (simp add: Cons_nth_drop_Suc[symmetric])
  have p: "join_js (V ! j) (split_js (K ! j) (template_text K segs)) = template_text K ?segs"
    using pass_on_template[OF w j Suc.prems(2)] .
  show ?case
  proof (cases "Suc j = length K")
    case True
    then have "drop (Suc j) (zip K V) = []" using l by simp
    moreover have "template_text K ?segs = substituted_from j K V segs"
      using Suc.prems(2) True by (intro last_pass_text) simp
    ultimately show ?thesis by (simp add: d p)
  next
    case False
    with j have sj: "Suc j < length K" by simp
    with Suc.prems(3) have v: "CHR ''{'' \<notin> set (V ! j)" by simp
    have "applyTemplate (template_text K ?segs) (drop (Suc j) (zip K V))
        = substituted_from (Suc j) K V ?segs"
    proof (rule Suc.hyps(1))
      show "m = length K - Suc j" using Suc.hyps(2) by simp
      show "Suc j \<le> length K" using sj by simp
      show "wf_template (length K) ?segs" using Suc.prems(2) v by (rule wf_template_pass)
      show "\<forall>i. Suc j \<le> i \<and> Suc i < length K \<longrightarrow> CHR ''{'' \<notin> set (V ! i)"
        using Suc.prems(3) by simp
    qed
    then show ?thesis by (simp add: d p substituted_from_pass)
  qed
qed

lemma substituted_from_0: "substituted_from 0 K V segs = substituted V segs"
proof (induction segs)
  case Nil
  then show ?case by (simp add: substituted_from_def substituted_def)
next
  case (Cons seg segs)
  then show ?case by (cases seg) (simp_all add: substituted_from_def substituted_def)
qed

text \<open>The single pass on a well-formed template.\<close>

lemma wf_tokens_tail: "wf_tokens (k # K) \<Longrightarrow> wf_tokens K"
  by (auto simp: wf_tokens_def list_all_iff)

lemma first_match_literal:
  "wf_tokens K \<Longrightarrow> length V = length K \<Longrightarrow> c \<noteq> CHR ''{'' \<Longrightarrow>
   first_match (zip K V) (c # cs) = None"
proof (induction K arbitrary: V)
  case Nil
  then show ?case by simp
next
  case (Cons k K)
  obtain v V' where V: "V = v # V'" using Cons.prems(2) by (cases V) auto
  have "wf_token k" using wf_tokens_nth[OF Cons.prems(1), of 0] by simp
  then obtain b body where "k = CHR ''{'' # CHR ''{'' # b # body"
    by (rule wf_token_shape)
  then have "\<not> prefix k (c # cs)" using Cons.prems(3) by auto
  then show ?case
    using Cons.IH[OF wf_tokens_tail[OF Cons.prems(1)], of V'] Cons.prems(2,3) V by simp
qed

lemma first_match_token:
  "wf_tokens K \<Longrightarrow> length V = length K \<Longrightarrow> i < length K \<Longrightarrow>
   first_match (zip K V) (K ! i @ r) = Some (length (K ! i) - 1, V ! i)"
proof (induction K arbitrary: V i)
  case Nil
  then show ?case by simp
next
  case (Cons k K)
  obtain v V' where V: "V = v # V'" using Cons.prems(2) by (cases V) auto
  have "wf_token k" using wf_tokens_nth[OF Cons.prems(1), of 0] by simp
  then obtain b body where k: "k = CHR ''{'' # CHR ''{'' # b # body"
    by (rule wf_token_shape)
  show ?case
  proof (cases i)
    case 0
    then show ?thesis using V k by simp
  next
    case (Suc i')
    have "\<not> prefix k (K ! i' @ r)"
      using token_match_only_itself[OF Cons.prems(1), of "Suc i'" 0 r] Cons.prems(3) Suc
      by auto
    then show ?thesis
      using Cons.IH[OF wf_tokens_tail[OF Cons.prems(1)], of V' i'] Cons.prems(2,3) V Suc
      by simp
  qed
qed

lemma single_pass_literal:
  assumes "wf_tokens K" "length V = length K" "CHR ''{'' \<notin> set s"
  shows "render_single_pass (zip K V) (s @ r) = s @ render_single_pass (zip K V) r"
  using assms(3)
proof (induction s)
  case Nil
  then show ?case by simp
next
  case (Cons c s)
  then have "first_match (zip K V) (c # s @ r) = None"
    using first_match_literal[OF assms(1,2), of c "s @ r"] by auto
  with Cons show ?case by simp
qed

lemma single_pass_token:
  assumes "wf_tokens K" "length V = length K" "i < length K"
  shows "render_single_pass (zip K V) (K ! i @ r) = V ! i @ render_single_pass (zip K V) r"
proof -
  obtain b body where k: "K ! i = CHR ''{'' # CHR ''{'' # b # body"
    using wf_token_shape[OF wf_tokens_nth[OF assms(1,3)]] by blast
  from first_match_token[OF assms, of r]
  have "first_match (zip K V) (CHR ''{'' # (CHR ''{'' # b # body) @ r)
      = Some (length (CHR ''{'' # b # body), V ! i)"
    by (simp add: k)
  then show ?thesis by (simp add: k)
qed

lemma single_pass_on_template:
  assumes "wf_tokens K" "length V = length K"
  shows "wf_template (length K) segs \<Longrightarrow>
     render_single_pass (zip K V) (template_text K segs) = substituted V segs"
proof (induction segs)
  case Nil
  then show ?case by (simp add: template_text_def substituted_def)
next
  case (Cons seg segs)
  then have ih: "render_single_pass (zip K V) (template_text K segs) = substituted V segs"
    by (simp add: wf_template_Cons)
  show ?case
  proof (cases seg)
    case (Lit s)
    with Cons.prems have "CHR ''{'' \<notin> set s" by (simp add: wf_template_Cons)
    from single_pass_literal[OF assms this] ih Lit show ?thesis
      by (simp add: template_text_Lit substituted_def)
  next
    case (Tok i)
    with Cons.prems have "i < length K" by (simp add: wf_template_Cons)
    from single_pass_token[OF assms this] ih Tok show ?thesis
      by (simp add: template_text_Tok substituted_def)
  qed
qed

lemma sequential_is_single_pass:
  assumes "wf_tokens K" "length V = length K" "wf_template (length K) segs"
    and "\<forall>i. Suc i < length K \<longrightarrow> CHR ''{'' \<notin> set (V ! i)"
  shows "applyTemplate (template_text K segs) (zip K V) = substituted V segs"
    and "render_single_pass (zip K V) (template_text K segs) = substituted V segs"
proof -
  from sequential_on_template[OF assms(1,2), of 0 segs] assms(3,4)
  show "applyTemplate (template_text K segs) (zip K V) = substituted V segs"
    by (simp add: substituted_from_0)
  show "render_single_pass (zip K V) (template_text K segs) = substituted V segs"
    by (rule single_pass_on_template[OF assms(1,2,3)])
qed

lemma wf_handler_tokens: "wf_tokens handler_tokens"
  by code_simp

lemma replacements_of_tokens:
  "map fst (replacements_of h root d transcript) = handler_tokens"
  by (simp add: replacements_of_def handler_tokens_def)

lemma agree_on_wf_template:
  assumes w: "wf_tokens (map fst replacements)"
    and t: "wf_template (length replacements) segs"
    and v: "\<forall>i. Suc i < length replacements \<longrightarrow> CHR ''{'' \<notin> set (snd (replacements ! i))"
  shows "applyTemplate (template_text (map fst replacements) segs) replacements
           = substituted (map snd replacements) segs"
    and "render_single_pass replacements (template_text (map fst replacements) segs)
           = substituted (map snd replacements) segs"
proof -
  let ?K = "map fst replacements" and ?V = "map snd replacements"
  have z: "zip ?K ?V = replacements" by (rule zip_map_fst_snd)
  have l: "length ?V = length ?K" by simp
  have t': "wf_template (length ?K) segs" using t by simp
  have v': "\<forall>i. Suc i < length ?K \<longrightarrow> CHR ''{'' \<notin> set (?V ! i)"
    using v by simp
  from sequential_is_single_pass(1)[OF w l t' v']
  show "applyTemplate (template_text ?K segs) replacements = substituted ?V segs"
    unfolding z .
  from sequential_is_single_pass(2)[OF w l t' v']
  show "render_single_pass replacements (template_text ?K segs) = substituted ?V segs"
    unfolding z .
qed

section \<open>Properties of the program\<close>

subsection \<open>The output location\<close>

text \<open>
  C1 (as amended). For every valid timestamp, \<open>timeDashMs\<close> has the form
  \<open>HH-MM-SS-mmm\<close> with the fields zero-padded and equal to the local hours,
  minutes, seconds and milliseconds; \<open>dateFolder\<close> is the zero-padded day, the
  zero-padded 1-based month and the year, separated by dashes, where the year is
  written in decimal without padding: it has four digits when the local year lies
  between 1000 and 9999. The output path is
  \<open><logRoot>/<dateFolder>/session_<timeDashMs>.md\<close>, where \<open>logRoot\<close> is
  \<open>path.join(workspaceRoot, "copilot-session_log")\<close>; for every workspace root
  that is a normalised path (other than \<open>.\<close>, no trailing separator) that is
  \<open><workspaceRoot>/copilot-session_log/<dateFolder>/session_<timeDashMs>.md\<close>.
\<close>

theorem allocate_shape_and_path:
  assumes "valid_date d"
  shows "has_shape ''dd-dd-dd-ddd'' (formatTimeDashMs d)
       \<and> number_of (take 2 (formatTimeDashMs d)) = nat (getHours d)
       \<and> number_of (take 2 (drop 3 (formatTimeDashMs d))) = nat (getMinutes d)
       \<and> number_of (take 2 (drop 6 (formatTimeDashMs d))) = nat (getSeconds d)
       \<and> number_of (drop 9 (formatTimeDashMs d)) = nat (getMilliseconds d)
       \<and> has_shape ''dd-dd-'' (take 6 (formatDateFolder d))
       \<and> number_of (take 2 (formatDateFolder d)) = nat (getDate d)
       \<and> number_of (take 2 (drop 3 (formatDateFolder d))) = nat (getMonth d + 1)
       \<and> drop 6 (formatDateFolder d) = String_num (getFullYear d)
       \<and> (1000 \<le> getFullYear d \<and> getFullYear d \<le> 9999 \<longrightarrow>
            has_shape ''dd-dd-dddd'' (formatDateFolder d)
            \<and> number_of (drop 6 (formatDateFolder d)) = nat (getFullYear d))
       \<and> outPath_of root d =
            path_join [root, ''copilot-session_log''] @ ''/'' @ formatDateFolder d
              @ ''/session_'' @ formatTimeDashMs d @ ''.md''
       \<and> (normal_root root \<longrightarrow>
            outPath_of root d =
              root @ ''/copilot-session_log/'' @ formatDateFolder d
                @ ''/session_'' @ formatTimeDashMs d @ ''.md'')"
proof -
  have "outPath_of root d =
      path_join [root, ''copilot-session_log''] @ ''/'' @ formatDateFolder d
        @ ''/session_'' @ formatTimeDashMs d @ ''.md''"
    by (simp add: outPath_of_eq outDir_of_eq baseName_of_def logRoot_of_def)
  then show ?thesis
    using formatTimeDashMs_fields[OF assms] formatDateFolder_fields[OF assms]
      formatDateFolder_four_digit_year[OF assms] outPath_of_normal_root[of root d]
    by blast
qed

theorem allocate_shape_and_path_witness:
  "valid_date example_date
   \<and> getFullYear example_date = 2024 \<and> getMonth example_date = 2 \<and> getDate example_date = 5
   \<and> getHours example_date = 9 \<and> getMinutes example_date = 7
   \<and> getSeconds example_date = 2 \<and> getMilliseconds example_date = 4
   \<and> normal_root ''/tmp/ws''
   \<and> formatDateFolder example_date = ''05-03-2024''
   \<and> formatTimeDashMs example_date = ''09-07-02-004''
   \<and> has_shape ''dd-dd-dddd'' ''05-03-2024''
   \<and> has_shape ''dd-dd-dd-ddd'' ''09-07-02-004''
   \<and> outPath_of ''/tmp/ws'' example_date
       = ''/tmp/ws/copilot-session_log/05-03-2024/session_09-07-02-004.md''"
proof -
  have v: "valid_date example_date" by (simp add: valid_date_def example_date_def)
  have y: "1000 \<le> getFullYear example_date \<and> getFullYear example_date \<le> 9999"
    by (simp add: example_date_def)
  have n: "normal_root ''/tmp/ws''" by code_simp
  have f: "formatDateFolder example_date = ''05-03-2024''" by code_simp
  have t: "formatTimeDashMs example_date = ''09-07-02-004''" by code_simp
  note a = allocate_shape_and_path[OF v, of "''/tmp/ws''"]
  from a y have s1: "has_shape ''dd-dd-dddd'' (formatDateFolder example_date)" by blast
  from a have s2: "has_shape ''dd-dd-dd-ddd'' (formatTimeDashMs example_date)" by blast
  from a n have "outPath_of ''/tmp/ws'' example_date =
      ''/tmp/ws'' @ ''/copilot-session_log/'' @ formatDateFolder example_date
        @ ''/session_'' @ formatTimeDashMs example_date @ ''.md''"
    by blast
  then have p: "outPath_of ''/tmp/ws'' example_date
      = ''/tmp/ws/copilot-session_log/05-03-2024/session_09-07-02-004.md''"
    unfolding f t by simp
  show ?thesis
    using v n f t s1 s2 p by (simp add: example_date_def)
qed

theorem allocate_shape_and_path_counterexample:
  "valid_date \<lparr>getFullYear = 999, getMonth = 0, getDate = 1, getHours = 0,
       getMinutes = 0, getSeconds = 0, getMilliseconds = 0\<rparr>
   \<and> formatDateFolder \<lparr>getFullYear = 999, getMonth = 0, getDate = 1, getHours = 0,
       getMinutes = 0, getSeconds = 0, getMilliseconds = 0\<rparr> = ''01-01-999''
   \<and> \<not> has_shape ''dd-dd-dddd'' (formatDateFolder \<lparr>getFullYear = 999, getMonth = 0,
       getDate = 1, getHours = 0, getMinutes = 0, getSeconds = 0, getMilliseconds = 0\<rparr>)
   \<and> outPath_of ''/tmp/ws/'' \<lparr>getFullYear = 999, getMonth = 0, getDate = 1, getHours = 0,
       getMinutes = 0, getSeconds = 0, getMilliseconds = 0\<rparr>
       = ''/tmp/ws/copilot-session_log/01-01-999/session_00-00-00-000.md''
   \<and> outPath_of ''/tmp/ws/'' \<lparr>getFullYear = 999, getMonth = 0, getDate = 1, getHours = 0,
       getMinutes = 0, getSeconds = 0, getMilliseconds = 0\<rparr>
       \<noteq> ''/tmp/ws/'' @ ''/copilot-session_log/'' @ ''01-01-999'' @ ''/session_''
           @ ''00-00-00-000'' @ ''.md''"
proof -
  let ?d = "\<lparr>getFullYear = 999, getMonth = 0, getDate = 1, getHours = 0,
       getMinutes = 0, getSeconds = 0, getMilliseconds = 0\<rparr>"
  have v: "valid_date ?d" by (simp add: valid_date_def)
  have f: "formatDateFolder ?d = ''01-01-999''" by code_simp
  have p: "outPath_of ''/tmp/ws/'' ?d
      = ''/tmp/ws/copilot-session_log/01-01-999/session_00-00-00-000.md''" by code_simp
  show ?thesis
    unfolding f p using v by (simp add: is_digit_def)
qed

subsection \<open>The order of substitution\<close>

text \<open>
  C2 (as amended). For every template and every replacement map with non-empty
  tokens, \<open>render\<close> applies the entries one after another in the order of the map:
  each entry is a single-pass literal substitution of its own token over the text
  the earlier entries produced. So the value of the last entry is never re-scanned,
  and a value is never re-scanned for its own token or for the token of an earlier
  entry; but a value written by an earlier entry is scanned by every later entry,
  and the output depends on the order when a value contains the text of a token.
  The sequential passes and one single pass over the template give the same output,
  the template with each token replaced by its value, when the tokens are well
  formed (each is \<open>{{\<close> followed by a non-empty text without \<open>{\<close>, they are
  distinct and none is a prefix of another), the template is made of literal text
  without \<open>{\<close> and of tokens of the map, and no value but the last contains
  \<open>{\<close>. The nine tokens of the save handler are well formed.
\<close>

theorem applyTemplate_sequential_passes:
  assumes "list_all (\<lambda>(key, value). key \<noteq> []) replacements"
  shows "applyTemplate template replacements
           = fold (\<lambda>entry out. render_single_pass [entry] out) replacements template
       \<and> (token \<noteq> [] \<longrightarrow>
            applyTemplate template (replacements @ [(token, v)])
              = render_single_pass [(token, v)] (applyTemplate template replacements))
       \<and> (wf_tokens (map fst replacements) \<and> wf_template (length replacements) segs
            \<and> (\<forall>i. Suc i < length replacements \<longrightarrow>
                   CHR ''{'' \<notin> set (snd (replacements ! i))) \<longrightarrow>
            applyTemplate (template_text (map fst replacements) segs) replacements
              = render_single_pass replacements (template_text (map fst replacements) segs)
          \<and> applyTemplate (template_text (map fst replacements) segs) replacements
              = substituted (map snd replacements) segs)
       \<and> wf_tokens (map fst (replacements_of h root d transcript))"
proof -
  have 1: "applyTemplate template replacements
           = fold (\<lambda>entry out. render_single_pass [entry] out) replacements template"
    using applyTemplate_fold_passes[OF assms, of template] .
  have 2: "token \<noteq> [] \<longrightarrow>
            applyTemplate template (replacements @ [(token, v)])
              = render_single_pass [(token, v)] (applyTemplate template replacements)"
    by (simp add: applyTemplate_snoc single_entry_pass)
  have 3: "wf_tokens (map fst replacements) \<and> wf_template (length replacements) segs
            \<and> (\<forall>i. Suc i < length replacements \<longrightarrow>
                   CHR ''{'' \<notin> set (snd (replacements ! i))) \<longrightarrow>
            applyTemplate (template_text (map fst replacements) segs) replacements
              = render_single_pass replacements (template_text (map fst replacements) segs)
          \<and> applyTemplate (template_text (map fst replacements) segs) replacements
              = substituted (map snd replacements) segs"
    using agree_on_wf_template[of replacements segs] by simp
  have 4: "wf_tokens (map fst (replacements_of h root d transcript))"
    unfolding replacements_of_tokens by (rule wf_handler_tokens)
  from 1 2 3 4 show ?thesis by blast
qed

theorem applyTemplate_sequential_passes_witness:
  "list_all (\<lambda>(key, value). key \<noteq> []) [(''{{WORKSPACE_ROOT}}'', ''/w/{{MODEL}}'')]
   \<and> ''{{MODEL}}'' \<noteq> []
   \<and> applyTemplate ''{{WORKSPACE_ROOT}} by {{MODEL}}''
        [(''{{WORKSPACE_ROOT}}'', ''/w/{{MODEL}}''), (''{{MODEL}}'', ''GPT-5.2'')]
       = ''/w/GPT-5.2 by GPT-5.2''
   \<and> render_single_pass [(''{{WORKSPACE_ROOT}}'', ''/w/{{MODEL}}'')]
        ''{{WORKSPACE_ROOT}} by {{MODEL}}''
       = ''/w/{{MODEL}} by {{MODEL}}''
   \<and> render_single_pass [(''{{MODEL}}'', ''GPT-5.2'')] ''/w/{{MODEL}} by {{MODEL}}''
       = ''/w/GPT-5.2 by GPT-5.2''
   \<and> list_all (\<lambda>(key, value). key \<noteq> [])
        [(''{{DATE}}'', ''05-03-2024''), (''{{TRANSCRIPT}}'', ''see {{DATE}}'')]
   \<and> wf_tokens (map fst [(''{{DATE}}'', ''05-03-2024''), (''{{TRANSCRIPT}}'', ''see {{DATE}}'')])
   \<and> wf_template 2 [Lit ''# '', Tok 0, Lit '': '', Tok 1]
   \<and> CHR ''{'' \<notin> set ''05-03-2024''
   \<and> template_text [''{{DATE}}'', ''{{TRANSCRIPT}}''] [Lit ''# '', Tok 0, Lit '': '', Tok 1]
       = ''# {{DATE}}: {{TRANSCRIPT}}''
   \<and> applyTemplate ''# {{DATE}}: {{TRANSCRIPT}}''
        [(''{{DATE}}'', ''05-03-2024''), (''{{TRANSCRIPT}}'', ''see {{DATE}}'')]
       = ''# 05-03-2024: see {{DATE}}''
   \<and> render_single_pass
        [(''{{DATE}}'', ''05-03-2024''), (''{{TRANSCRIPT}}'', ''see {{DATE}}'')]
        ''# {{DATE}}: {{TRANSCRIPT}}''
       = ''# 05-03-2024: see {{DATE}}''"
proof -
  let ?t = "''{{WORKSPACE_ROOT}} by {{MODEL}}''"
  let ?rs = "[(''{{WORKSPACE_ROOT}}'', ''/w/{{MODEL}}'')]"
  have l: "list_all (\<lambda>(key, value). key \<noteq> []) ?rs" by simp
  have a: "applyTemplate ?t (?rs @ [(''{{MODEL}}'', ''GPT-5.2'')]) = ''/w/GPT-5.2 by GPT-5.2''"
    by code_simp
  note s = applyTemplate_sequential_passes[OF l, where template = ?t and token = "''{{MODEL}}''"
      and v = "''GPT-5.2''" and segs = "[]" and h = example_host and root = "[]"
      and d = example_date and transcript = "[]"]
  have 1: "render_single_pass ?rs ?t = applyTemplate ?t ?rs"
    using s by simp
  have b: "applyTemplate ?t ?rs = ''/w/{{MODEL}} by {{MODEL}}''" by code_simp
  have 2: "render_single_pass [(''{{MODEL}}'', ''GPT-5.2'')] (applyTemplate ?t ?rs)
      = ''/w/GPT-5.2 by GPT-5.2''"
    using s a by simp
  let ?ws = "[(''{{DATE}}'', ''05-03-2024''), (''{{TRANSCRIPT}}'', ''see {{DATE}}'')]"
  let ?segs = "[Lit ''# '', Tok 0, Lit '': '', Tok 1]"
  have l2: "list_all (\<lambda>(key, value). key \<noteq> []) ?ws" by simp
  have w: "wf_tokens (map fst ?ws)" by code_simp
  have t: "wf_template (length ?ws) ?segs" by (simp add: wf_template_def)
  have v: "\<forall>i. Suc i < length ?ws \<longrightarrow> CHR ''{'' \<notin> set (snd (?ws ! i))"
    by simp
  have x: "template_text (map fst ?ws) ?segs = ''# {{DATE}}: {{TRANSCRIPT}}''"
    by (simp add: template_text_def)
  have y: "substituted (map snd ?ws) ?segs = ''# 05-03-2024: see {{DATE}}''"
    by (simp add: substituted_def)
  note s2 = applyTemplate_sequential_passes[OF l2, where template = "[]" and token = "[]"
      and v = "[]" and segs = ?segs and h = example_host and root = "[]"
      and d = example_date and transcript = "[]"]
  from s2 w t v
  have "applyTemplate (template_text (map fst ?ws) ?segs) ?ws
          = render_single_pass ?ws (template_text (map fst ?ws) ?segs)
      \<and> applyTemplate (template_text (map fst ?ws) ?segs) ?ws
          = substituted (map snd ?ws) ?segs"
    by blast
  then have 3: "applyTemplate ''# {{DATE}}: {{TRANSCRIPT}}'' ?ws = ''# 05-03-2024: see {{DATE}}''"
    and 4: "render_single_pass ?ws ''# {{DATE}}: {{TRANSCRIPT}}'' = ''# 05-03-2024: see {{DATE}}''"
    unfolding x y by simp_all
  have t2: "wf_template 2 ?segs" by (simp add: wf_template_def)
  have x2: "template_text [''{{DATE}}'', ''{{TRANSCRIPT}}''] ?segs = ''# {{DATE}}: {{TRANSCRIPT}}''"
    using x by simp
  have c: "CHR ''{'' \<notin> set ''05-03-2024''" by simp
  have r12: "render_single_pass ?rs ?t = ''/w/{{MODEL}} by {{MODEL}}''
     \<and> render_single_pass [(''{{MODEL}}'', ''GPT-5.2'')] ''/w/{{MODEL}} by {{MODEL}}''
       = ''/w/GPT-5.2 by GPT-5.2''"
    using 1 2 unfolding b by simp
  have a': "applyTemplate ?t [(''{{WORKSPACE_ROOT}}'', ''/w/{{MODEL}}''), (''{{MODEL}}'', ''GPT-5.2'')]
      = ''/w/GPT-5.2 by GPT-5.2''"
    using a by simp
  have m: "''{{MODEL}}'' \<noteq> []" by simp
  from l m a' r12 l2 w t2 c x2 3 4 show ?thesis by blast
qed

theorem applyTemplate_sequential_passes_counterexample:
  "applyTemplate ''{{WORKSPACE_ROOT}}''
      [(''{{WORKSPACE_ROOT}}'', ''/w/{{MODEL}}''), (''{{MODEL}}'', ''GPT-5.2'')]
     = ''/w/GPT-5.2''
   \<and> render_single_pass
      [(''{{WORKSPACE_ROOT}}'', ''/w/{{MODEL}}''), (''{{MODEL}}'', ''GPT-5.2'')]
      ''{{WORKSPACE_ROOT}}''
     = ''/w/{{MODEL}}''
   \<and> applyTemplate ''{{WORKSPACE_ROOT}}''
      [(''{{MODEL}}'', ''GPT-5.2''), (''{{WORKSPACE_ROOT}}'', ''/w/{{MODEL}}'')]
     = ''/w/{{MODEL}}''"
  by code_simp

subsection \<open>A missing transcript: what has happened before the Failure\<close>

text \<open>
  C3 (as amended). For an invocation whose transcript is absent or trims to empty and
  whose \<open>savedAt\<close> is absent, empty or parseable, the handler first creates the
  output date directory and loads or creates the template; when both steps succeed
  it responds with the no-transcript Failure in the file system these steps left:
  the date directory and the log root exist, the template file exists with the text
  that was loaded, and the session file has not been written. Only the rendering
  and the write of the session file come after the transcript check.
\<close>

theorem blank_transcript_fails_after_setup:
  assumes "blank_transcript args" and "savedAt_of h args = Some d"
    and "ensureDir fs (outDir_of (workspaceRoot_of h args) d) = Inr fs1"
    and "loadOrCreateTemplate fs1 (logRoot_of (workspaceRoot_of h args)) = (Inr template, fs2)"
  shows "saveCopilotSession h args fs = (Inr (Error no_transcript_message), fs2)
       \<and> outDir_of (workspaceRoot_of h args) d \<in> dirs fs2
       \<and> logRoot_of (workspaceRoot_of h args) \<in> dirs fs2
       \<and> files fs2 (templatePath_of (logRoot_of (workspaceRoot_of h args))) = Some template
       \<and> files fs2 (outPath_of (workspaceRoot_of h args) d)
           = files fs (outPath_of (workspaceRoot_of h args) d)"
proof -
  let ?root = "workspaceRoot_of h args"
  have t: "transcript_of args = []" using assms(1) by (simp add: blank_transcript_iff)
  have r: "saveCopilotSession h args fs = (Inr (Error no_transcript_message), fs2)"
    using assms(2,3,4) t by (simp add: saveCopilotSession_def Let_def)
  note l = loadOrCreateTemplate_effect[OF assms(4)]
  note e = ensureDir_effect[OF assms(3)]
  note c = ensureDir_creates[OF assms(3)]
  have "files fs2 (outPath_of ?root d) = files fs1 (outPath_of ?root d)"
    using l outPath_not_templatePath[of ?root d] by blast
  then have "files fs2 (outPath_of ?root d) = files fs (outPath_of ?root d)"
    using e by simp
  then show ?thesis
    using r c l loadOrCreateTemplate_result[OF assms(4)] by simp
qed

theorem blank_transcript_fails_after_setup_witness:
  "blank_transcript \<lparr>transcriptMarkdown = Some ''  '', savedAt = None, workspaceRoot = Some ''/tmp/ws''\<rparr>
   \<and> savedAt_of example_host
        \<lparr>transcriptMarkdown = Some ''  '', savedAt = None, workspaceRoot = Some ''/tmp/ws''\<rparr>
       = Some example_date
   \<and> ensureDir empty_fs (outDir_of ''/tmp/ws'' example_date) = Inr fs_with_dirs
   \<and> loadOrCreateTemplate fs_with_dirs (logRoot_of ''/tmp/ws'')
       = (Inr defaultTemplate, fs_with_template)
   \<and> saveCopilotSession example_host
        \<lparr>transcriptMarkdown = Some ''  '', savedAt = None, workspaceRoot = Some ''/tmp/ws''\<rparr>
        empty_fs
       = (Inr (Error no_transcript_message), fs_with_template)
   \<and> ''/tmp/ws/copilot-session_log/05-03-2024'' \<in> dirs fs_with_template
   \<and> files fs_with_template ''/tmp/ws/copilot-session_log/_TEMPLATE.md'' = Some defaultTemplate"
proof -
  let ?args = "\<lparr>transcriptMarkdown = Some ''  '', savedAt = None, workspaceRoot = Some ''/tmp/ws''\<rparr>"
  have b: "blank_transcript ?args" by code_simp
  have s: "savedAt_of example_host ?args = Some example_date"
    by (simp add: savedAt_of_def truthy_def example_host_def)
  have w: "workspaceRoot_of example_host ?args = ''/tmp/ws''"
    by (simp add: workspaceRoot_of_def nullish_def)
  note e = example_ensureDir and l = example_load
  from blank_transcript_fails_after_setup[of ?args example_host example_date empty_fs
      fs_with_dirs defaultTemplate fs_with_template, OF b s] e l w
  have "saveCopilotSession example_host ?args empty_fs
          = (Inr (Error no_transcript_message), fs_with_template)
       \<and> outDir_of ''/tmp/ws'' example_date \<in> dirs fs_with_template
       \<and> files fs_with_template (templatePath_of (logRoot_of ''/tmp/ws'')) = Some defaultTemplate"
    by simp
  then show ?thesis
    using b s e l by (simp add: example_outDir example_logRoot example_templatePath)
qed

theorem blank_transcript_fails_after_setup_counterexample:
  "fst (saveCopilotSession example_host
          \<lparr>transcriptMarkdown = None, savedAt = None, workspaceRoot = Some ''/tmp/ws''\<rparr>
          empty_fs) = Inr (Error no_transcript_message)
   \<and> ''/tmp/ws/copilot-session_log/05-03-2024'' \<notin> dirs empty_fs
   \<and> ''/tmp/ws/copilot-session_log/05-03-2024''
       \<in> dirs (snd (saveCopilotSession example_host
            \<lparr>transcriptMarkdown = None, savedAt = None, workspaceRoot = Some ''/tmp/ws''\<rparr>
            empty_fs))
   \<and> files empty_fs ''/tmp/ws/copilot-session_log/_TEMPLATE.md'' = None
   \<and> files (snd (saveCopilotSession example_host
            \<lparr>transcriptMarkdown = None, savedAt = None, workspaceRoot = Some ''/tmp/ws''\<rparr>
            empty_fs)) ''/tmp/ws/copilot-session_log/_TEMPLATE.md'' = Some defaultTemplate"
proof -
  let ?args = "\<lparr>transcriptMarkdown = None, savedAt = None, workspaceRoot = Some ''/tmp/ws''\<rparr>"
  have s: "savedAt_of example_host ?args = Some example_date"
    by (simp add: savedAt_of_def truthy_def example_host_def)
  have w: "workspaceRoot_of example_host ?args = ''/tmp/ws''"
    by (simp add: workspaceRoot_of_def nullish_def)
  have t: "transcript_of ?args = []" by code_simp
  have r: "saveCopilotSession example_host ?args empty_fs
      = (Inr (Error no_transcript_message), fs_with_template)"
    by (simp add: saveCopilotSession_def Let_def s w t example_ensureDir example_load)
  show ?thesis
    unfolding r by (simp add: fs_with_template_def fs_with_dirs_def empty_fs_def)
qed

subsection \<open>An unparseable save timestamp\<close>

text \<open>
  C4 (as amended). For every invocation where \<open>savedAt\<close> is supplied as a non-empty
  string that cannot be parsed as a datetime (e.g. \<open>not-a-date\<close>), the handler
  returns a Failure whose message mentions the expected ISO-8601 format, and the
  file system is left as it was: no directory or file is created. The dispatcher
  passes the message on with the error flag set.
\<close>

theorem unparseable_savedAt_rejected:
  assumes "savedAt args = Some s" and "s \<noteq> []" and "date_parse h s = None"
  shows "saveCopilotSession h args fs = (Inr (Error invalid_savedAt_message), fs)
       \<and> sublist ''ISO-8601'' invalid_savedAt_message
       \<and> callTool h cli ''save-copilot-session'' (Some args) fs
           = (Inr \<lparr>content_text = invalid_savedAt_message, isError = True\<rparr>, fs)"
proof -
  have "savedAt_of h a = None" if "savedAt a = Some s" for a
    using that assms(2,3) by (simp add: savedAt_of_def truthy_def nullish_def)
  then show ?thesis
    using assms(1) iso_in_message
    by (simp add: saveCopilotSession_def callTool_def Let_def nullish_def)
qed

theorem unparseable_savedAt_rejected_witness:
  "savedAt \<lparr>transcriptMarkdown = Some ''hello'', savedAt = Some ''not-a-date'',
            workspaceRoot = Some ''/tmp/ws''\<rparr> = Some ''not-a-date''
   \<and> ''not-a-date'' \<noteq> []
   \<and> date_parse example_host ''not-a-date'' = None
   \<and> saveCopilotSession example_host
        \<lparr>transcriptMarkdown = Some ''hello'', savedAt = Some ''not-a-date'',
          workspaceRoot = Some ''/tmp/ws''\<rparr> empty_fs
       = (Inr (Error invalid_savedAt_message), empty_fs)"
proof -
  have p: "date_parse example_host ''not-a-date'' = None"
    by (simp add: example_host_def)
  from unparseable_savedAt_rejected[of
      "\<lparr>transcriptMarkdown = Some ''hello'', savedAt = Some ''not-a-date'',
        workspaceRoot = Some ''/tmp/ws''\<rparr>" "''not-a-date''" example_host empty_fs, OF _ _ p]
  show ?thesis using p by simp
qed

theorem unparseable_savedAt_rejected_counterexample:
  "date_parse example_host [] = None
   \<and> fst (saveCopilotSession example_host
        \<lparr>transcriptMarkdown = Some ''hello'', savedAt = Some [],
          workspaceRoot = Some ''/tmp/ws''\<rparr> empty_fs)
       = Inr (SavedPath ''/tmp/ws/copilot-session_log/05-03-2024/session_09-07-02-004.md'')
   \<and> ''/tmp/ws/copilot-session_log/05-03-2024'' \<notin> dirs empty_fs
   \<and> ''/tmp/ws/copilot-session_log/05-03-2024''
       \<in> dirs (snd (saveCopilotSession example_host
        \<lparr>transcriptMarkdown = Some ''hello'', savedAt = Some [],
          workspaceRoot = Some ''/tmp/ws''\<rparr> empty_fs))"
proof -
  let ?args = "\<lparr>transcriptMarkdown = Some ''hello'', savedAt = Some [],
          workspaceRoot = Some ''/tmp/ws''\<rparr>"
  have s: "savedAt_of example_host ?args = Some example_date"
    by (simp add: savedAt_of_def truthy_def example_host_def)
  show ?thesis
    unfolding example_run[of ?args, OF s, simplified]
    by (simp add: example_host_def empty_fs_def fs_with_template_def fs_with_dirs_def)
qed

subsection \<open>A missing transcript: the result\<close>

text \<open>
  C5 (as amended). For every invocation whose \<open>transcriptMarkdown\<close> is absent, empty
  or white space only, the result is never a Success and no session file is saved:
  the only file the call can create is the default template. The result is the
  Failure explaining that the caller must supply the full transcript text whenever
  \<open>savedAt\<close> is absent, empty or parseable and no file-system operation fails; an
  unparseable \<open>savedAt\<close> is rejected first, with the ISO-8601 Failure.
\<close>

theorem blank_transcript_never_saved:
  assumes "blank_transcript args"
  shows "(\<forall>p. fst (saveCopilotSession h args fs) \<noteq> Inr (SavedPath p))
       \<and> (\<forall>q. files (snd (saveCopilotSession h args fs)) q \<noteq> files fs q \<longrightarrow>
              q = templatePath_of (logRoot_of (workspaceRoot_of h args))
              \<and> files fs q = None
              \<and> files (snd (saveCopilotSession h args fs)) q = Some defaultTemplate)
       \<and> (savedAt_of h args = None \<longrightarrow>
              saveCopilotSession h args fs = (Inr (Error invalid_savedAt_message), fs))
       \<and> (savedAt_of h args \<noteq> None
            \<and> (\<forall>e. fst (saveCopilotSession h args fs) \<noteq> Inl e) \<longrightarrow>
              fst (saveCopilotSession h args fs) = Inr (Error no_transcript_message))"
proof (intro conjI allI impI)
  fix p
  show "fst (saveCopilotSession h args fs) \<noteq> Inr (SavedPath p)"
  proof (cases "savedAt_of h args")
    case None
    then show ?thesis by (simp add: saveCopilotSession_def)
  next
    case (Some d)
    from save_blank_outcome[OF assms Some, of fs] show ?thesis by auto
  qed
next
  fix q
  assume "files (snd (saveCopilotSession h args fs)) q \<noteq> files fs q"
  from save_blank_frame[OF assms this]
  show "q = templatePath_of (logRoot_of (workspaceRoot_of h args))"
    and "files fs q = None"
    and "files (snd (saveCopilotSession h args fs)) q = Some defaultTemplate"
    by blast+
next
  assume "savedAt_of h args = None"
  then show "saveCopilotSession h args fs = (Inr (Error invalid_savedAt_message), fs)"
    by (simp add: saveCopilotSession_def)
next
  assume a: "savedAt_of h args \<noteq> None \<and> (\<forall>e. fst (saveCopilotSession h args fs) \<noteq> Inl e)"
  then obtain d where "savedAt_of h args = Some d" by auto
  from save_blank_outcome[OF assms this, of fs] a
  show "fst (saveCopilotSession h args fs) = Inr (Error no_transcript_message)" by auto
qed

theorem blank_transcript_never_saved_witness:
  "blank_transcript \<lparr>transcriptMarkdown = Some ''  '', savedAt = None, workspaceRoot = Some ''/tmp/ws''\<rparr>
   \<and> savedAt_of example_host
        \<lparr>transcriptMarkdown = Some ''  '', savedAt = None, workspaceRoot = Some ''/tmp/ws''\<rparr>
       \<noteq> None
   \<and> fst (saveCopilotSession example_host
        \<lparr>transcriptMarkdown = Some ''  '', savedAt = None, workspaceRoot = Some ''/tmp/ws''\<rparr>
        empty_fs) \<noteq> Inl ENOENT
   \<and> fst (saveCopilotSession example_host
        \<lparr>transcriptMarkdown = Some ''  '', savedAt = None, workspaceRoot = Some ''/tmp/ws''\<rparr>
        empty_fs) = Inr (Error no_transcript_message)
   \<and> files (snd (saveCopilotSession example_host
        \<lparr>transcriptMarkdown = Some ''  '', savedAt = None, workspaceRoot = Some ''/tmp/ws''\<rparr>
        empty_fs)) ''/tmp/ws/copilot-session_log/_TEMPLATE.md'' \<noteq>
       files empty_fs ''/tmp/ws/copilot-session_log/_TEMPLATE.md''
   \<and> files (snd (saveCopilotSession example_host
        \<lparr>transcriptMarkdown = Some ''  '', savedAt = None, workspaceRoot = Some ''/tmp/ws''\<rparr>
        empty_fs)) ''/tmp/ws/copilot-session_log/_TEMPLATE.md'' = Some defaultTemplate"
proof -
  let ?args = "\<lparr>transcriptMarkdown = Some ''  '', savedAt = None, workspaceRoot = Some ''/tmp/ws''\<rparr>"
  have b: "blank_transcript ?args" by code_simp
  have s: "savedAt_of example_host ?args = Some example_date"
    by (simp add: savedAt_of_def truthy_def example_host_def)
  have w: "workspaceRoot_of example_host ?args = ''/tmp/ws''"
    by (simp add: workspaceRoot_of_def nullish_def)
  have t: "transcript_of ?args = []" by code_simp
  have r: "saveCopilotSession example_host ?args empty_fs
      = (Inr (Error no_transcript_message), fs_with_template)"
    by (simp add: saveCopilotSession_def Let_def s w t example_ensureDir example_load)
  have d: "files fs_with_template ''/tmp/ws/copilot-session_log/_TEMPLATE.md''
      \<noteq> files empty_fs ''/tmp/ws/copilot-session_log/_TEMPLATE.md''"
    by (simp add: fs_with_template_def empty_fs_def)
  from blank_transcript_never_saved[OF b, of example_host empty_fs] d
  have "files (snd (saveCopilotSession example_host ?args empty_fs))
      ''/tmp/ws/copilot-session_log/_TEMPLATE.md'' = Some defaultTemplate"
    unfolding r by auto
  then show ?thesis using b s r d by simp
qed

theorem blank_transcript_never_saved_counterexample:
  "blank_transcript \<lparr>transcriptMarkdown = None, savedAt = Some ''not-a-date'',
       workspaceRoot = Some ''/tmp/ws''\<rparr>
   \<and> fst (saveCopilotSession example_host
        \<lparr>transcriptMarkdown = None, savedAt = Some ''not-a-date'',
          workspaceRoot = Some ''/tmp/ws''\<rparr> empty_fs)
       = Inr (Error invalid_savedAt_message)
   \<and> invalid_savedAt_message \<noteq> no_transcript_message
   \<and> \<not> sublist ''transcript'' invalid_savedAt_message
   \<and> blank_transcript \<lparr>transcriptMarkdown = None, savedAt = None,
       workspaceRoot = Some ''/tmp/ws''\<rparr>
   \<and> saveCopilotSession example_host
        \<lparr>transcriptMarkdown = None, savedAt = None, workspaceRoot = Some ''/tmp/ws''\<rparr>
        fs_file_at_logRoot
       = (Inl ENOTDIR, fs_file_at_logRoot)"
proof -
  let ?args = "\<lparr>transcriptMarkdown = None, savedAt = Some ''not-a-date'',
       workspaceRoot = Some ''/tmp/ws''\<rparr>"
  let ?blocked = "\<lparr>transcriptMarkdown = None, savedAt = None,
       workspaceRoot = Some ''/tmp/ws''\<rparr>"
  have b: "blank_transcript ?args" "blank_transcript ?blocked" by code_simp+
  have s: "savedAt_of example_host ?args = None"
    by (simp add: savedAt_of_def truthy_def nullish_def example_host_def)
  have n: "\<not> sublist ''transcript'' invalid_savedAt_message" by code_simp
  have s': "savedAt_of example_host ?blocked = Some example_date"
    by (simp add: savedAt_of_def truthy_def example_host_def)
  have w: "workspaceRoot_of example_host ?blocked = ''/tmp/ws''"
    by (simp add: workspaceRoot_of_def nullish_def)
  have e: "ensureDir fs_file_at_logRoot (outDir_of ''/tmp/ws'' example_date) = Inl ENOTDIR"
    unfolding example_outDir
    by (simp add: ensureDir_def fs_file_at_logRoot_def example_dir_chain)
  have r: "saveCopilotSession example_host ?blocked fs_file_at_logRoot
      = (Inl ENOTDIR, fs_file_at_logRoot)"
    by (simp add: saveCopilotSession_def Let_def s' w e)
  show ?thesis
    using b s n r messages_differ by (simp add: saveCopilotSession_def)
qed

subsection \<open>The workspace root of an invocation\<close>

text \<open>
  C6. The workspace root an invocation uses is the per-call \<open>workspaceRoot\<close>
  argument if it is supplied, otherwise the startup override if one is set,
  otherwise the current working directory. The dispatcher passes that root to the
  handler, which uses it as it is, and a saved path lies under it. The startup
  override is the non-empty argument after the first \<open>--workspaceRoot\<close>.
\<close>

theorem workspaceRoot_precedence:
  "(workspaceRoot input = Some w \<longrightarrow> effective_workspaceRoot h cli input = w)
   \<and> (workspaceRoot input = None \<and> cli_workspaceRoot cli = Some c \<longrightarrow>
        effective_workspaceRoot h cli input = c)
   \<and> (workspaceRoot input = None \<and> cli_workspaceRoot cli = None \<longrightarrow>
        effective_workspaceRoot h cli input = process_cwd h)
   \<and> workspaceRoot_of h (input\<lparr>workspaceRoot := Some (effective_workspaceRoot h cli input)\<rparr>)
       = effective_workspaceRoot h cli input
   \<and> (callTool h cli ''save-copilot-session'' (Some input) fs
         = (Inr \<lparr>content_text = p, isError = False\<rparr>, fs') \<longrightarrow>
        (\<exists>d. savedAt_of h input = Some d
           \<and> p = outPath_of (effective_workspaceRoot h cli input) d))
   \<and> callTool h cli ''save-copilot-session'' None fs
       = callTool h cli ''save-copilot-session'' (Some no_arguments) fs
   \<and> (workspaceRoot input = None \<and> ''--workspaceRoot'' \<notin> set pre
        \<and> drop 2 argv = pre @ ''--workspaceRoot'' # v # post \<and> v \<noteq> [] \<longrightarrow>
        effective_workspaceRoot h (parseCliArgs argv) input = v)"
proof -
  have "effective_workspaceRoot h (parseCliArgs argv) input = v"
    if "workspaceRoot input = None" and "''--workspaceRoot'' \<notin> set pre"
      and "drop 2 argv = pre @ ''--workspaceRoot'' # v # post" and "v \<noteq> []"
    using parseCliArgs_first_flag[OF that(2,3)] that(1,4)
    by (simp add: effective_workspaceRoot_def nullish_def)
  then show ?thesis
    using callTool_success_path[of h cli input fs p fs']
    by (auto simp: effective_workspaceRoot_def workspaceRoot_of_def nullish_def callTool_def)
qed

theorem workspaceRoot_precedence_witness:
  "effective_workspaceRoot example_host \<lparr>cli_workspaceRoot = Some ''/srv/ws''\<rparr>
      \<lparr>transcriptMarkdown = Some ''hello'', savedAt = None, workspaceRoot = Some ''/tmp/ws''\<rparr>
     = ''/tmp/ws''
   \<and> effective_workspaceRoot example_host \<lparr>cli_workspaceRoot = Some ''/srv/ws''\<rparr>
      \<lparr>transcriptMarkdown = Some ''hello'', savedAt = None, workspaceRoot = None\<rparr>
     = ''/srv/ws''
   \<and> effective_workspaceRoot example_host \<lparr>cli_workspaceRoot = None\<rparr>
      \<lparr>transcriptMarkdown = Some ''hello'', savedAt = None, workspaceRoot = None\<rparr>
     = ''/home/user''
   \<and> callTool example_host \<lparr>cli_workspaceRoot = Some ''/srv/ws''\<rparr> ''save-copilot-session''
      (Some \<lparr>transcriptMarkdown = Some ''hello'', savedAt = None,
             workspaceRoot = Some ''/tmp/ws''\<rparr>) empty_fs
     = (Inr \<lparr>content_text =
               ''/tmp/ws/copilot-session_log/05-03-2024/session_09-07-02-004.md'',
             isError = False\<rparr>,
        fs_with_template\<lparr>files := (files fs_with_template)
          (''/tmp/ws/copilot-session_log/05-03-2024/session_09-07-02-004.md'' \<mapsto>
             ''# Copilot chat session 05-03-2024 09:07:02'' @ [CHR 10, CHR 10] @
             ''## Conversation'' @ [CHR 10, CHR 10] @ ''hello'' @ [CHR 10])\<rparr>)
   \<and> outPath_of ''/tmp/ws'' example_date
     = ''/tmp/ws/copilot-session_log/05-03-2024/session_09-07-02-004.md''"
proof -
  let ?withroot = "\<lparr>transcriptMarkdown = Some ''hello'', savedAt = None,
      workspaceRoot = Some ''/tmp/ws''\<rparr>"
  let ?noroot = "\<lparr>transcriptMarkdown = Some ''hello'', savedAt = None, workspaceRoot = None\<rparr>"
  let ?withcli = "\<lparr>cli_workspaceRoot = Some ''/srv/ws''\<rparr>"
  let ?nocli = "\<lparr>cli_workspaceRoot = None\<rparr>"
  have 1: "effective_workspaceRoot example_host ?withcli ?withroot = ''/tmp/ws''"
    using workspaceRoot_precedence[where input = ?withroot and w = "''/tmp/ws''" and h = example_host
        and cli = ?withcli and fs = empty_fs and p = "[]" and fs' = empty_fs and c = "[]"
        and pre = "[]" and argv = "[]" and v = "[]" and post = "[]"]
    by simp
  have 2: "effective_workspaceRoot example_host ?withcli ?noroot = ''/srv/ws''"
    using workspaceRoot_precedence[where input = ?noroot and h = example_host and cli = ?withcli
        and c = "''/srv/ws''" and fs = empty_fs and p = "[]" and fs' = empty_fs and w = "[]"
        and pre = "[]" and argv = "[]" and v = "[]" and post = "[]"]
    by simp
  have 3: "effective_workspaceRoot example_host ?nocli ?noroot = ''/home/user''"
    using workspaceRoot_precedence[where input = ?noroot and h = example_host and cli = ?nocli
        and fs = empty_fs and p = "[]" and fs' = empty_fs and w = "[]" and c = "[]"
        and pre = "[]" and argv = "[]" and v = "[]" and post = "[]"]
    by (simp add: example_host_def)
  have s: "savedAt_of example_host (?withroot\<lparr>workspaceRoot := Some ''/tmp/ws''\<rparr>) = Some example_date"
    by (simp add: savedAt_of_def truthy_def example_host_def)
  have 4: "callTool example_host ?withcli ''save-copilot-session'' (Some ?withroot) empty_fs
     = (Inr \<lparr>content_text =
               ''/tmp/ws/copilot-session_log/05-03-2024/session_09-07-02-004.md'',
             isError = False\<rparr>,
        fs_with_template\<lparr>files := (files fs_with_template)
          (''/tmp/ws/copilot-session_log/05-03-2024/session_09-07-02-004.md'' \<mapsto>
             ''# Copilot chat session 05-03-2024 09:07:02'' @ [CHR 10, CHR 10] @
             ''## Conversation'' @ [CHR 10, CHR 10] @ ''hello'' @ [CHR 10])\<rparr>)"
    using example_run[OF s] by (simp add: callTool_def Let_def nullish_def 1)
  show ?thesis using 1 2 3 4 example_outPath by simp
qed

subsection \<open>Loading the template\<close>

text \<open>
  C7 (as amended). Template loading returns the contents of
  \<open><logRootPath>/_TEMPLATE.md\<close> verbatim when that file exists, leaving the file
  system as it is. Otherwise, when nothing exists at that path and the directory
  \<open>logRootPath\<close> exists, it writes the default template (a heading line with the
  date and time tokens, and a \<open>{{TRANSCRIPT}}\<close> placeholder) to that path and
  returns that text. It does not create the directory: when the directory is
  missing the write fails, the error is passed on and nothing is written. The save
  handler creates the directory before it loads the template.
\<close>

theorem template_loading:
  "(files fs (templatePath_of logRoot) = Some content \<longrightarrow>
      loadOrCreateTemplate fs logRoot = (Inr content, fs))
   \<and> (\<not> fileExists fs (templatePath_of logRoot)
        \<and> dir_exists fs (parent_path (templatePath_of logRoot)) \<longrightarrow>
      loadOrCreateTemplate fs logRoot =
        (Inr defaultTemplate,
         fs\<lparr>files := (files fs)(templatePath_of logRoot \<mapsto> defaultTemplate)\<rparr>))
   \<and> (\<not> fileExists fs (templatePath_of logRoot)
        \<and> \<not> dir_exists fs (parent_path (templatePath_of logRoot)) \<longrightarrow>
      (\<exists>e. loadOrCreateTemplate fs logRoot = (Inl e, fs)))
   \<and> (normal_root logRoot \<longrightarrow>
      templatePath_of logRoot = logRoot @ ''/_TEMPLATE.md''
      \<and> parent_path (templatePath_of logRoot) = logRoot)
   \<and> (ensureDir fs_before (outDir_of root d) = Inr fs \<longrightarrow>
      dir_exists fs (parent_path (templatePath_of (logRoot_of root))))
   \<and> prefix ''# Copilot chat session {{DATE}} {{TIME_COLON}}'' defaultTemplate
   \<and> sublist ''{{TRANSCRIPT}}'' defaultTemplate"
proof -
  have 1: "files fs (templatePath_of logRoot) = Some content \<longrightarrow>
      loadOrCreateTemplate fs logRoot = (Inr content, fs)"
    by (simp add: loadOrCreateTemplate_def Let_def fileExists_def readFile_def)
  have 2: "\<not> fileExists fs (templatePath_of logRoot)
        \<and> dir_exists fs (parent_path (templatePath_of logRoot)) \<longrightarrow>
      loadOrCreateTemplate fs logRoot =
        (Inr defaultTemplate,
         fs\<lparr>files := (files fs)(templatePath_of logRoot \<mapsto> defaultTemplate)\<rparr>)"
    by (simp add: loadOrCreateTemplate_def Let_def fileExists_def writeFile_def)
  have 3: "\<not> fileExists fs (templatePath_of logRoot)
        \<and> \<not> dir_exists fs (parent_path (templatePath_of logRoot)) \<longrightarrow>
      (\<exists>e. loadOrCreateTemplate fs logRoot = (Inl e, fs))"
    by (simp add: loadOrCreateTemplate_def Let_def fileExists_def writeFile_def)
  have 4: "normal_root logRoot \<longrightarrow>
      templatePath_of logRoot = logRoot @ ''/_TEMPLATE.md''
      \<and> parent_path (templatePath_of logRoot) = logRoot"
  proof
    assume n: "normal_root logRoot"
    have c: "clean_segment ''_TEMPLATE.md''" by (simp add: clean_segment_def)
    from path_join_normal_root[OF n c]
    have t: "templatePath_of logRoot = logRoot @ ''/_TEMPLATE.md''"
      by (simp add: templatePath_of_def)
    then show "templatePath_of logRoot = logRoot @ ''/_TEMPLATE.md''
      \<and> parent_path (templatePath_of logRoot) = logRoot"
      using parent_path_snoc[of "''_TEMPLATE.md''" logRoot] by simp
  qed
  show ?thesis
    using 1 2 3 4 template_parent_exists[of fs_before root d fs] defaultTemplate_parts by blast
qed

theorem template_loading_witness:
  "files fs_with_template (templatePath_of ''/tmp/ws/copilot-session_log'') = Some defaultTemplate
   \<and> loadOrCreateTemplate fs_with_template ''/tmp/ws/copilot-session_log''
       = (Inr defaultTemplate, fs_with_template)
   \<and> \<not> fileExists fs_with_dirs (templatePath_of ''/tmp/ws/copilot-session_log'')
   \<and> dir_exists fs_with_dirs (parent_path (templatePath_of ''/tmp/ws/copilot-session_log''))
   \<and> loadOrCreateTemplate fs_with_dirs ''/tmp/ws/copilot-session_log''
       = (Inr defaultTemplate,
          fs_with_dirs\<lparr>files := (files fs_with_dirs)
            (''/tmp/ws/copilot-session_log/_TEMPLATE.md'' \<mapsto> defaultTemplate)\<rparr>)
   \<and> \<not> dir_exists empty_fs (parent_path (templatePath_of ''/tmp/ws/copilot-session_log''))
   \<and> fst (loadOrCreateTemplate empty_fs ''/tmp/ws/copilot-session_log'') = Inl ENOENT
   \<and> normal_root ''/tmp/ws/copilot-session_log''
   \<and> templatePath_of ''/tmp/ws/copilot-session_log''
       = ''/tmp/ws/copilot-session_log/_TEMPLATE.md''
   \<and> ensureDir empty_fs (outDir_of ''/tmp/ws'' example_date) = Inr fs_with_dirs
   \<and> dir_exists fs_with_dirs (parent_path (templatePath_of (logRoot_of ''/tmp/ws'')))"
proof -
  let ?l = "''/tmp/ws/copilot-session_log''"
  have t: "templatePath_of ?l = ''/tmp/ws/copilot-session_log/_TEMPLATE.md''"
    by (rule example_templatePath)
  have p: "parent_path ''/tmp/ws/copilot-session_log/_TEMPLATE.md'' = ?l" by code_simp
  have n: "normal_root ?l" by code_simp
  have a: "files fs_with_template (templatePath_of ?l) = Some defaultTemplate"
    by (simp add: t fs_with_template_def)
  have b: "\<not> fileExists fs_with_dirs (templatePath_of ?l)"
    by (simp add: t fileExists_def fs_with_dirs_def)
  have c: "dir_exists fs_with_dirs (parent_path (templatePath_of ?l))"
    by (simp add: t p dir_exists_def fs_with_dirs_def)
  have b': "\<not> fileExists empty_fs (templatePath_of ?l)"
    by (simp add: t fileExists_def empty_fs_def)
  have c': "\<not> dir_exists empty_fs (parent_path (templatePath_of ?l))"
    by (simp add: t p dir_exists_def empty_fs_def)
  from template_loading[of fs_with_template ?l defaultTemplate] a
  have 1: "loadOrCreateTemplate fs_with_template ?l = (Inr defaultTemplate, fs_with_template)"
    by blast
  from template_loading[of fs_with_dirs ?l] b c
  have 2: "loadOrCreateTemplate fs_with_dirs ?l =
        (Inr defaultTemplate,
         fs_with_dirs\<lparr>files := (files fs_with_dirs)(templatePath_of ?l \<mapsto> defaultTemplate)\<rparr>)"
    by blast
  from template_loading[of empty_fs ?l] b' c'
  obtain e where 3: "loadOrCreateTemplate empty_fs ?l = (Inl e, empty_fs)" by blast
  have "loadOrCreateTemplate empty_fs ?l = (Inl ENOENT, empty_fs)"
    by (simp add: example_templatePath loadOrCreateTemplate_def Let_def fileExists_def
        writeFile_def dir_exists_def p empty_fs_def)
  with 3 have ne: "fst (loadOrCreateTemplate empty_fs ?l) = Inl ENOENT" by simp
  from template_loading[where fs_before = empty_fs and root = "''/tmp/ws''" and d = example_date
      and fs = fs_with_dirs] example_ensureDir
  have 4: "dir_exists fs_with_dirs (parent_path (templatePath_of (logRoot_of ''/tmp/ws'')))"
    by blast
  show ?thesis
    using a b c c' n 1 2 ne 4 example_ensureDir unfolding t by blast
qed

theorem template_loading_counterexample:
  "\<not> fileExists empty_fs (templatePath_of ''/tmp/ws/copilot-session_log'')
   \<and> loadOrCreateTemplate empty_fs ''/tmp/ws/copilot-session_log'' = (Inl ENOENT, empty_fs)
   \<and> files (snd (loadOrCreateTemplate empty_fs ''/tmp/ws/copilot-session_log''))
        (templatePath_of ''/tmp/ws/copilot-session_log'') = None
   \<and> files fs_dir_at_template (templatePath_of ''/tmp/ws/copilot-session_log'') = None
   \<and> loadOrCreateTemplate fs_dir_at_template ''/tmp/ws/copilot-session_log''
       = (Inl EISDIR, fs_dir_at_template)"
proof -
  have p: "parent_path ''/tmp/ws/copilot-session_log/_TEMPLATE.md''
      = ''/tmp/ws/copilot-session_log''" by code_simp
  have 1: "loadOrCreateTemplate empty_fs ''/tmp/ws/copilot-session_log'' = (Inl ENOENT, empty_fs)"
    by (simp add: example_templatePath loadOrCreateTemplate_def Let_def fileExists_def
        writeFile_def dir_exists_def p empty_fs_def)
  have 2: "loadOrCreateTemplate fs_dir_at_template ''/tmp/ws/copilot-session_log''
       = (Inl EISDIR, fs_dir_at_template)"
    by (simp add: example_templatePath loadOrCreateTemplate_def Let_def fileExists_def
        readFile_def fs_dir_at_template_def fs_with_dirs_def)
  show ?thesis
    unfolding 1 2
    by (simp add: example_templatePath fileExists_def empty_fs_def fs_dir_at_template_def
        fs_with_dirs_def)
qed

subsection \<open>The transcript is substituted last\<close>

text \<open>
  C8. In every render of the save handler the nine tokens are substituted one after
  another in a fixed order, \<open>{{TRANSCRIPT}}\<close> last. The rendered text is therefore
  the text the first eight substitutions produce (which does not depend on the
  transcript) with every \<open>{{TRANSCRIPT}}\<close> in it replaced by the transcript, copied
  as it is: whatever token the transcript contains stays in the output, as in the
  default template for any transcript. A token inside a value substituted earlier
  is replaced by a later substitution: a workspace root containing \<open>{{MODEL}}\<close>
  is rendered with the model name in its place.
\<close>

theorem render_transcript_last:
  "map fst (replacements_of h root d transcript)
     = [''{{DATE}}'', ''{{TIME_COLON}}'', ''{{TIME_DASH}}'', ''{{TIME_DASH_MS}}'',
        ''{{WORKSPACE_ROOT}}'', ''{{PROJECT_NAME}}'', ''{{OS}}'', ''{{MODEL}}'',
        ''{{TRANSCRIPT}}'']
   \<and> butlast (replacements_of h root d transcript) = butlast (replacements_of h root d [])
   \<and> applyTemplate template (replacements_of h root d transcript)
       = join_js transcript (split_js ''{{TRANSCRIPT}}''
           (applyTemplate template (butlast (replacements_of h root d []))))
   \<and> applyTemplate template (replacements_of h root d transcript)
       = render_single_pass [(''{{TRANSCRIPT}}'', transcript)]
           (applyTemplate template (butlast (replacements_of h root d [])))
   \<and> applyTemplate defaultTemplate (replacements_of h root example_date transcript)
       = ''# Copilot chat session 05-03-2024 09:07:02'' @ [CHR 10, CHR 10] @
         ''## Conversation'' @ [CHR 10, CHR 10] @ transcript @ [CHR 10]
   \<and> applyTemplate ''{{WORKSPACE_ROOT}}'' (replacements_of h ''/w/{{MODEL}}'' d transcript)
       = ''/w/GPT-5.2''"
proof -
  have r: "replacements_of h root d transcript
      = butlast (replacements_of h root d []) @ [(''{{TRANSCRIPT}}'', transcript)]"
    by (simp add: replacements_of_def)
  have 1: "applyTemplate template (replacements_of h root d transcript)
       = join_js transcript (split_js ''{{TRANSCRIPT}}''
           (applyTemplate template (butlast (replacements_of h root d []))))"
    by (subst r) (rule applyTemplate_snoc)
  have 2: "applyTemplate defaultTemplate (replacements_of h root example_date transcript)
       = ''# Copilot chat session 05-03-2024 09:07:02'' @ [CHR 10, CHR 10] @
         ''## Conversation'' @ [CHR 10, CHR 10] @ transcript @ [CHR 10]"
    by code_simp
  have 3: "applyTemplate ''{{WORKSPACE_ROOT}}'' (replacements_of h ''/w/{{MODEL}}'' d transcript)
       = ''/w/GPT-5.2''"
    by code_simp
  show ?thesis
    using 1 2 3 by (simp add: single_entry_pass) (simp add: replacements_of_def)
qed

subsection \<open>An empty save timestamp\<close>

text \<open>
  C9. An invocation with \<open>savedAt\<close> supplied as the empty string is treated exactly
  as if \<open>savedAt\<close> were absent: the save timestamp is the current local time, the
  handler and the dispatcher give the same result and file system as without
  \<open>savedAt\<close>, and that result is not the ISO-8601 Failure.
\<close>

theorem empty_savedAt_is_absent:
  "savedAt_of h (args\<lparr>savedAt := Some []\<rparr>) = Some (date_now h)
   \<and> savedAt_of h (args\<lparr>savedAt := None\<rparr>) = Some (date_now h)
   \<and> saveCopilotSession h (args\<lparr>savedAt := Some []\<rparr>) fs
       = saveCopilotSession h (args\<lparr>savedAt := None\<rparr>) fs
   \<and> fst (saveCopilotSession h (args\<lparr>savedAt := Some []\<rparr>) fs)
       \<noteq> Inr (Error invalid_savedAt_message)
   \<and> callTool h cli name (Some (args\<lparr>savedAt := Some []\<rparr>)) fs
       = callTool h cli name (Some (args\<lparr>savedAt := None\<rparr>)) fs"
proof -
  have a: "savedAt_of h (args\<lparr>savedAt := Some []\<rparr>) = Some (date_now h)"
    and b: "savedAt_of h (args\<lparr>savedAt := None\<rparr>) = Some (date_now h)"
    by (simp_all add: savedAt_of_def truthy_def)
  have c: "saveCopilotSession h (a\<lparr>savedAt := Some []\<rparr>) fs
       = saveCopilotSession h (a\<lparr>savedAt := None\<rparr>) fs" for a
  proof -
    have s: "savedAt_of h (a\<lparr>savedAt := Some []\<rparr>) = savedAt_of h (a\<lparr>savedAt := None\<rparr>)"
      by (simp add: savedAt_of_def truthy_def)
    have w: "workspaceRoot_of h (a\<lparr>savedAt := Some []\<rparr>)
        = workspaceRoot_of h (a\<lparr>savedAt := None\<rparr>)"
      by (simp add: workspaceRoot_of_def)
    have t: "transcript_of (a\<lparr>savedAt := Some []\<rparr>) = transcript_of (a\<lparr>savedAt := None\<rparr>)"
      by (simp add: transcript_of_def)
    show ?thesis unfolding saveCopilotSession_def s w t by (rule refl)
  qed
  have e: "effective_workspaceRoot h cli (args\<lparr>savedAt := x\<rparr>)
       = effective_workspaceRoot h cli args" for x
    by (simp add: effective_workspaceRoot_def)
  have "saveCopilotSession h (args\<lparr>savedAt := Some [], workspaceRoot := r\<rparr>) fs
       = saveCopilotSession h (args\<lparr>savedAt := None, workspaceRoot := r\<rparr>) fs" for r
  proof -
    have s: "savedAt_of h (args\<lparr>savedAt := Some [], workspaceRoot := r\<rparr>)
        = savedAt_of h (args\<lparr>savedAt := None, workspaceRoot := r\<rparr>)"
      by (simp add: savedAt_of_def truthy_def)
    have w: "workspaceRoot_of h (args\<lparr>savedAt := Some [], workspaceRoot := r\<rparr>)
        = workspaceRoot_of h (args\<lparr>savedAt := None, workspaceRoot := r\<rparr>)"
      by (simp add: workspaceRoot_of_def)
    have t: "transcript_of (args\<lparr>savedAt := Some [], workspaceRoot := r\<rparr>)
        = transcript_of (args\<lparr>savedAt := None, workspaceRoot := r\<rparr>)"
      by (simp add: transcript_of_def)
    show ?thesis unfolding saveCopilotSession_def s w t by (rule refl)
  qed
  then have d: "callTool h cli name (Some (args\<lparr>savedAt := Some []\<rparr>)) fs
       = callTool h cli name (Some (args\<lparr>savedAt := None\<rparr>)) fs"
    by (simp add: callTool_def Let_def nullish_def e)
  show ?thesis
    using a b c[of args] d save_not_invalid_savedAt[OF a, of fs] by simp
qed

subsection \<open>The startup flag without a value\<close>

text \<open>
  C10 (as amended). If the first occurrence of \<open>--workspaceRoot\<close> among the startup
  arguments is immediately followed by an empty-string argument, or is the final
  argument, no startup workspace-root override is set, exactly as if the flag were
  absent; followed by a non-empty argument, it sets the override to that argument.
\<close>

theorem parseCliArgs_flag_without_value:
  assumes "''--workspaceRoot'' \<notin> set pre"
  shows "(drop 2 argv = pre @ [''--workspaceRoot''] \<longrightarrow>
            parseCliArgs argv = \<lparr>cli_workspaceRoot = None\<rparr>)
       \<and> (drop 2 argv = pre @ ''--workspaceRoot'' # [] # post \<longrightarrow>
            parseCliArgs argv = \<lparr>cli_workspaceRoot = None\<rparr>)
       \<and> (drop 2 argv = pre \<longrightarrow> parseCliArgs argv = \<lparr>cli_workspaceRoot = None\<rparr>)
       \<and> (drop 2 argv = pre @ ''--workspaceRoot'' # v # post \<and> v \<noteq> [] \<longrightarrow>
            parseCliArgs argv = \<lparr>cli_workspaceRoot = Some v\<rparr>)"
  using parseCliArgs_first_flag[OF assms, of argv "[]"]
    parseCliArgs_first_flag[OF assms, of argv "[] # post"]
    parseCliArgs_first_flag[OF assms, of argv "v # post"]
    parseCliArgs_no_flag[of argv] assms
  by auto

theorem parseCliArgs_flag_without_value_witness:
  "''--workspaceRoot'' \<notin> set [''--verbose'']
   \<and> drop 2 [''node'', ''index.js'', ''--verbose'', ''--workspaceRoot'']
       = [''--verbose''] @ [''--workspaceRoot'']
   \<and> parseCliArgs [''node'', ''index.js'', ''--verbose'', ''--workspaceRoot'']
       = \<lparr>cli_workspaceRoot = None\<rparr>
   \<and> drop 2 [''node'', ''index.js'', ''--verbose'', ''--workspaceRoot'', [], ''x'']
       = [''--verbose''] @ ''--workspaceRoot'' # [] # [''x'']
   \<and> parseCliArgs [''node'', ''index.js'', ''--verbose'', ''--workspaceRoot'', [], ''x'']
       = \<lparr>cli_workspaceRoot = None\<rparr>
   \<and> parseCliArgs [''node'', ''index.js'', ''--verbose'']
       = \<lparr>cli_workspaceRoot = None\<rparr>
   \<and> parseCliArgs [''node'', ''index.js'', ''--verbose'', ''--workspaceRoot'', ''/tmp/ws'']
       = \<lparr>cli_workspaceRoot = Some ''/tmp/ws''\<rparr>"
proof -
  have n: "''--workspaceRoot'' \<notin> set [''--verbose'']" by simp
  note t = parseCliArgs_flag_without_value[OF n]
  have 1: "parseCliArgs [''node'', ''index.js'', ''--verbose'', ''--workspaceRoot'']
       = \<lparr>cli_workspaceRoot = None\<rparr>"
    using t[of "[''node'', ''index.js'', ''--verbose'', ''--workspaceRoot'']"] by simp
  have 2: "parseCliArgs [''node'', ''index.js'', ''--verbose'', ''--workspaceRoot'', [], ''x'']
       = \<lparr>cli_workspaceRoot = None\<rparr>"
    using t[of "[''node'', ''index.js'', ''--verbose'', ''--workspaceRoot'', [], ''x'']" "[''x'']"]
    by simp
  have 3: "parseCliArgs [''node'', ''index.js'', ''--verbose''] = \<lparr>cli_workspaceRoot = None\<rparr>"
    using t[of "[''node'', ''index.js'', ''--verbose'']"] by simp
  have 4: "parseCliArgs [''node'', ''index.js'', ''--verbose'', ''--workspaceRoot'', ''/tmp/ws'']
       = \<lparr>cli_workspaceRoot = Some ''/tmp/ws''\<rparr>"
    using t[of "[''node'', ''index.js'', ''--verbose'', ''--workspaceRoot'', ''/tmp/ws'']" "[]"
        "''/tmp/ws''"]
    by simp
  show ?thesis using 1 2 3 4 by simp
qed

theorem parseCliArgs_flag_without_value_counterexample:
  "parseCliArgs [''node'', ''index.js'', ''--workspaceRoot'', ''/tmp/ws'', ''--workspaceRoot'']
     = \<lparr>cli_workspaceRoot = Some ''/tmp/ws''\<rparr>
   \<and> last [''node'', ''index.js'', ''--workspaceRoot'', ''/tmp/ws'', ''--workspaceRoot'']
       = ''--workspaceRoot''
   \<and> parseCliArgs [''node'', ''index.js'', ''--workspaceRoot'', ''/tmp/ws'', ''--workspaceRoot'', []]
     = \<lparr>cli_workspaceRoot = Some ''/tmp/ws''\<rparr>
   \<and> parseCliArgs [''node'', ''index.js''] = \<lparr>cli_workspaceRoot = None\<rparr>"
  by code_simp

end
